theory Spec2Isabelle
  imports Main "HOL-Library.Word" "HOL-Library.AList"
begin

unbundle bit_operations_syntax

section \<open>The protocol tap of \<^verbatim>\<open>src/inject/proto-tap.js\<close>\<close>

text \<open>
  The tap is one closure over a handful of mutable variables. The embedding keeps them in
  one record, \<open>tap_state\<close>, that every operation takes and returns. What the closure gets
  from its host (the schema registry under \<^verbatim>\<open>window.protobuf\<close>, the clock, whether a
  \<^verbatim>\<open>send\<close> on a socket raises) is the record \<open>env\<close>. Calls that leave the tap (a send
  on the relay, a handler invocation, an envelope decode, a send on a game socket) are
  appended to logs kept in the state, so that a theorem can say which of them happened
  and in which order.
\<close>

subsection \<open>Values\<close>

text \<open>
  Plain JSON values, the result of \<^verbatim>\<open>JSON.parse(JSON.stringify(x))\<close>. An object is its
  list of own properties in insertion order. A serialized record handed to the relay is
  represented by the object that \<^verbatim>\<open>JSON.stringify\<close> was applied to.
\<close>

datatype json =
    JNull
  | JBool bool
  | JNum int
  | JStr string
  | JArr "json list"
  | JObj "(string \<times> json) list"

type_synonym obj = "(string \<times> json) list"
type_synonym bytes = "8 word list"
type_synonym handler = nat
type_synonym ws_id = nat

text \<open>
  A key of the socket registry. The proxy and the send hook store the address string of
  a socket; \<^verbatim>\<open>attachToSocket\<close> stores \<^verbatim>\<open>ws.url || ''\<close> of whatever object it is given, which
  need not be a string. \<open>KNum\<close> stands for such a key: a number, which has no
  \<^verbatim>\<open>includes\<close> method. Keys of other kinds are not modelled.
\<close>

datatype sock_key = KStr string | KNum int

text \<open>How a call ends: it returns a value, or it raises to its caller.\<close>

datatype 'a completion = Returned 'a | Threw

text \<open>JavaScript truthiness of a JSON value.\<close>

fun truthy :: "json \<Rightarrow> bool" where
  "truthy JNull = False"
| "truthy (JBool b) = b"
| "truthy (JNum n) = (n \<noteq> 0)"
| "truthy (JStr s) = (s \<noteq> [])"
| "truthy (JArr xs) = True"
| "truthy (JObj kvs) = True"

text \<open>Property read \<^verbatim>\<open>v.k\<close> on a JSON value; \<open>None\<close> is \<^verbatim>\<open>undefined\<close>.\<close>

fun jget :: "string \<Rightarrow> json \<Rightarrow> json option" where
  "jget k (JObj kvs) = map_of kvs k"
| "jget k v = None"

subsection \<open>The schema registry (external)\<close>

text \<open>
  The registry is consumed, not implemented: per namespace an optional \<^verbatim>\<open>MessageId\<close>
  enumeration (its \<^verbatim>\<open>Object.entries\<close>, name first), an optional \<^verbatim>\<open>Wrapper\<close> codec, and
  codecs by type name. A decoder returns \<open>None\<close> where \<^verbatim>\<open>decode\<close> (or the JSON
  normalisation of its result) raises; an encoder returns \<open>None\<close> where it raises.
\<close>

record wrapper =
  w_topic :: string
  w_body :: bytes

record wrapper_codec =
  wdecode :: "bytes \<Rightarrow> wrapper option"
  wencode :: "wrapper \<Rightarrow> bytes option"

record codec =
  decode :: "bytes \<Rightarrow> json option"
  encode :: "json \<Rightarrow> bytes option"

record ns_obj =
  MessageId :: "(string \<times> int) list option"
  Wrapper :: "wrapper_codec option"
  msgTypes :: "string \<Rightarrow> codec option"

type_synonym registry = "string \<Rightarrow> ns_obj option"

subsection \<open>Environment and state\<close>

text \<open>
  The environment of one call: the registry at \<^verbatim>\<open>window.protobuf.roots['default']\<close> if there
  is one, the value of \<^verbatim>\<open>Date.now()\<close>, whether the \<open>n\<close>-th send attempt on the relay
  raises for a payload, the \<^verbatim>\<open>readyState\<close> of each socket, whether a send on a socket raises,
  and the namespace names that \<^verbatim>\<open>Object.keys(pb)\<close> lists at startup.

  The state holds the variables of the closure, then the logs: the count of send attempts
  on the relay and the payloads sent, the namespaces whose \<^verbatim>\<open>Wrapper.decode\<close> was
  called, the handler calls with their argument, and the buffers sent on game sockets.
\<close>

record env =
  windowPb :: "registry option"
  now :: int
  relayThrows :: "nat \<Rightarrow> obj \<Rightarrow> bool"
  wsReadyState :: "ws_id \<Rightarrow> nat"
  wsSendThrows :: "ws_id \<Rightarrow> bytes \<Rightarrow> bool"
  pbNamespaces :: "string list"

record tap_state =
  relayOk :: bool
  retries :: nat
  queue :: "obj list"
  lastRoomId :: "json option"
  pb :: "registry option"
  msgIdMaps :: "string \<Rightarrow> (int \<times> string) list option"
  idToType :: "int \<Rightarrow> (string \<times> string) option"
  lastEvents :: "obj list"
  unknownFrames :: "obj list"
  handlers :: "string \<Rightarrow> handler list option"
  sockets :: "(sock_key \<times> ws_id) list"
  patchedSockets :: "ws_id list"
  polling :: bool
  relaySends :: nat
  relaySent :: "obj list"
  wrapperCalls :: "string list"
  busLog :: "(handler \<times> obj) list"
  wsSent :: "(ws_id \<times> bytes) list"

definition MAX_RETRIES :: nat where
  "MAX_RETRIES = 8"

definition RING_SIZE :: nat where
  "RING_SIZE = 200"

definition UNKNOWN_RING :: nat where
  "UNKNOWN_RING = 500"

definition SKIP_TOPICS :: "string list" where
  "SKIP_TOPICS = [''Ping'', ''Pong'', ''RealIp'', ''AnimMsg'', ''VoiceMsg'']"

definition GAME_NAMESPACES :: "string list" where
  "GAME_NAMESPACES = [''holdem'', ''commonProto'', ''mttPro'', ''pineapple'']"

text \<open>The state of a freshly installed tap.\<close>

definition init_state :: tap_state where
  "init_state = \<lparr> relayOk = False, retries = 0, queue = [], lastRoomId = None, pb = None,
     msgIdMaps = (\<lambda>_. None), idToType = (\<lambda>_. None), lastEvents = [], unknownFrames = [],
     handlers = (\<lambda>_. None), sockets = [], patchedSockets = [], polling = True,
     relaySends = 0, relaySent = [],
     wrapperCalls = [], busLog = [], wsSent = [] \<rparr>"

subsection \<open>Relay\<close>

text \<open>
  \<^verbatim>\<open>relay.send(json)\<close>: the \<open>n\<close>-th send attempt on the relay raises when the environment
  says so; otherwise the payload is on the wire.
\<close>

definition relaySend :: "env \<Rightarrow> tap_state \<Rightarrow> obj \<Rightarrow> bool \<times> tap_state" where
  "relaySend e st json =
     (if relayThrows e (relaySends st) json
      then (False, st\<lparr>relaySends := Suc (relaySends st)\<rparr>)
      else (True, st\<lparr>relaySends := Suc (relaySends st), relaySent := relaySent st @ [json]\<rparr>))"

text \<open>
  The flush loop of \<^verbatim>\<open>relay.onopen\<close>,
  \<^verbatim>\<open>while (queue.length) { try { relay.send(queue.shift()); } catch (_) { break; } }\<close>,
  over the three things it touches: the queue, the count of send attempts and the wire.
  The head is shifted off the queue before it is sent.
\<close>

fun flushLoop :: "env \<Rightarrow> obj list \<Rightarrow> nat \<Rightarrow> obj list \<Rightarrow> obj list \<times> nat \<times> obj list" where
  "flushLoop e [] n sent = ([], n, sent)"
| "flushLoop e (q # qs) n sent =
     (if relayThrows e n q then (qs, Suc n, sent)
      else flushLoop e qs (Suc n) (sent @ [q]))"

definition relayOnOpen :: "env \<Rightarrow> tap_state \<Rightarrow> tap_state" where
  "relayOnOpen e st =
     (let st1 = st\<lparr>relayOk := True, retries := 0\<rparr> in
      if queue st1 \<noteq> [] then
        (case flushLoop e (queue st1) (relaySends st1) (relaySent st1) of
           (q', n', sent') \<Rightarrow> st1\<lparr>queue := q', relaySends := n', relaySent := sent'\<rparr>)
      else st1)"

text \<open>
  \<^verbatim>\<open>relay.onclose\<close>: the second component is the delay of the \<^verbatim>\<open>setTimeout(openRelay, ...)\<close>
  it schedules, \<open>None\<close> when it schedules nothing.
\<close>

definition relayOnClose :: "tap_state \<Rightarrow> tap_state \<times> nat option" where
  "relayOnClose st =
     (let r = Suc (retries st); st1 = st\<lparr>relayOk := False, retries := r\<rparr> in
      if r \<le> MAX_RETRIES then (st1, Some (min 30000 (1000 * r * r))) else (st1, None))"

text \<open>A run of consecutive closes with no open in between: the delays scheduled, in order.\<close>

fun closes :: "nat \<Rightarrow> tap_state \<Rightarrow> nat option list" where
  "closes 0 st = []"
| "closes (Suc k) st = (case relayOnClose st of (st1, d) \<Rightarrow> d # closes k st1)"

definition relayEmit :: "env \<Rightarrow> tap_state \<Rightarrow> obj \<Rightarrow> tap_state" where
  "relayEmit e st json =
     (let (sent, st1) = (if relayOk st then relaySend e st json else (False, st)) in
      if sent then st1
      else if length (queue st1) < 500 then st1\<lparr>queue := queue st1 @ [json]\<rparr>
      else st1)"

subsection \<open>Ring buffers\<close>

text \<open>\<^verbatim>\<open>push\<close> then, when over capacity, one \<^verbatim>\<open>shift\<close>.\<close>

definition ringPush :: "nat \<Rightarrow> 'a list \<Rightarrow> 'a \<Rightarrow> 'a list" where
  "ringPush cap xs x = (let ys = xs @ [x] in if length ys > cap then tl ys else ys)"

definition pushRing :: "tap_state \<Rightarrow> obj \<Rightarrow> tap_state" where
  "pushRing st evt = st\<lparr>lastEvents := ringPush RING_SIZE (lastEvents st) evt\<rparr>"

definition pushUnknown :: "tap_state \<Rightarrow> obj \<Rightarrow> tap_state" where
  "pushUnknown st entry = st\<lparr>unknownFrames := ringPush UNKNOWN_RING (unknownFrames st) entry\<rparr>"

subsection \<open>Protobuf registry access\<close>

text \<open>\<^verbatim>\<open>resolvePb\<close>: the registry when it is (or becomes) available; it is cached in \<open>pb\<close>.\<close>

definition resolvePb :: "env \<Rightarrow> tap_state \<Rightarrow> registry option \<times> tap_state" where
  "resolvePb e st =
     (case pb st of
        Some r \<Rightarrow> (Some r, st)
      | None \<Rightarrow> (case windowPb e of
                   Some r \<Rightarrow> (Some r, st\<lparr>pb := Some r\<rparr>)
                 | None \<Rightarrow> (None, st)))"

text \<open>
  \<^verbatim>\<open>buildIdMap(ns)\<close>: the map id \<open>\<rightarrow>\<close> name of one namespace, as an association list;
  a later name with the same id overwrites the earlier one.
\<close>

definition buildIdMap :: "tap_state \<Rightarrow> string \<Rightarrow> tap_state" where
  "buildIdMap st ns =
     (case msgIdMaps st ns of
        Some m \<Rightarrow> st
      | None \<Rightarrow>
         (case pb st of
            None \<Rightarrow> st
          | Some r \<Rightarrow>
             (case r ns of
                None \<Rightarrow> st
              | Some nsObj \<Rightarrow>
                 (case MessageId nsObj of
                    None \<Rightarrow> st
                  | Some entries \<Rightarrow>
                     st\<lparr>msgIdMaps := (msgIdMaps st)
                          (ns := Some (fold (\<lambda>(name, i) m. AList.update i name m) entries []))\<rparr>))))"

text \<open>
  \<^verbatim>\<open>lookupMsgId(ns, typeName)\<close>: the first id whose name is \<open>typeName\<close>. The names of
  an enumeration are distinct, so at most one entry matches and the order in which
  \<^verbatim>\<open>Object.entries\<close> lists the ids does not matter.
\<close>

definition lookupMsgId :: "tap_state \<Rightarrow> string \<Rightarrow> string \<Rightarrow> int option" where
  "lookupMsgId st ns typeName =
     (case msgIdMaps st ns of
        None \<Rightarrow> None
      | Some m \<Rightarrow> map_option fst (find (\<lambda>p. snd p = typeName) m))"

definition priorityOrder :: "string list" where
  "priorityOrder = [''pineapple'', ''commonProto'', ''mttPro'', ''holdem'']"

text \<open>The inner loop of \<^verbatim>\<open>buildReverseIdMap\<close> over the entries of one namespace.\<close>

fun addEntries :: "string \<Rightarrow> (string \<times> int) list \<Rightarrow> (int \<Rightarrow> (string \<times> string) option)
    \<Rightarrow> (int \<Rightarrow> (string \<times> string) option)" where
  "addEntries ns [] m = m"
| "addEntries ns ((name, i) # rest) m =
     (if i = 0 then addEntries ns rest m
      else addEntries ns rest (m(i := Some (ns, name))))"

fun reverseLoop :: "registry \<Rightarrow> string list \<Rightarrow> (int \<Rightarrow> (string \<times> string) option)
    \<Rightarrow> (int \<Rightarrow> (string \<times> string) option)" where
  "reverseLoop r [] m = m"
| "reverseLoop r (ns # rest) m =
     (case r ns of
        None \<Rightarrow> reverseLoop r rest m
      | Some nsObj \<Rightarrow>
         (case MessageId nsObj of
            None \<Rightarrow> reverseLoop r rest m
          | Some entries \<Rightarrow> reverseLoop r rest (addEntries ns entries m)))"

definition buildReverseIdMap :: "registry \<Rightarrow> tap_state \<Rightarrow> tap_state" where
  "buildReverseIdMap r st = st\<lparr>idToType := reverseLoop r priorityOrder (idToType st)\<rparr>"

subsection \<open>In-page event bus\<close>

text \<open>
  \<^verbatim>\<open>_handlers\<close> is a plain object literal, so a read \<^verbatim>\<open>_handlers[topic]\<close> for a name that
  \<^verbatim>\<open>Object.prototype\<close> defines finds the inherited member, which has neither \<^verbatim>\<open>add\<close>,
  \<^verbatim>\<open>delete\<close> nor \<^verbatim>\<open>forEach\<close>: the three bus operations raise a TypeError for such a topic.
  Their first component is \<open>False\<close> when they raise.
\<close>

definition objectProtoKeys :: "string list" where
  "objectProtoKeys = [''constructor'', ''__proto__'', ''toString'', ''toLocaleString'',
     ''valueOf'', ''hasOwnProperty'', ''isPrototypeOf'', ''propertyIsEnumerable'',
     ''__defineGetter__'', ''__defineSetter__'', ''__lookupGetter__'', ''__lookupSetter__'']"

text \<open>A \<^verbatim>\<open>Set\<close> of handlers is the list of its members in insertion order.\<close>

definition busOn :: "tap_state \<Rightarrow> string \<Rightarrow> handler \<Rightarrow> bool \<times> tap_state" where
  "busOn st topic fn =
     (if topic \<in> set objectProtoKeys then (False, st)
      else (True, st\<lparr>handlers := (handlers st)(topic := Some
              (case handlers st topic of
                 None \<Rightarrow> [fn]
               | Some hs \<Rightarrow> if fn \<in> set hs then hs else hs @ [fn]))\<rparr>))"

definition busOff :: "tap_state \<Rightarrow> string \<Rightarrow> handler \<Rightarrow> bool \<times> tap_state" where
  "busOff st topic fn =
     (if topic \<in> set objectProtoKeys then (False, st)
      else (case handlers st topic of
              None \<Rightarrow> (True, st)
            | Some hs \<Rightarrow> (True, st\<lparr>handlers := (handlers st)(topic := Some (removeAll fn hs))\<rparr>)))"

text \<open>
  The object literal \<^verbatim>\<open>{ topic, ...data }\<close>: the property \<open>topic\<close> first, then every own
  property of \<open>data\<close> copied over it in order; a key that is already there keeps its
  place and takes the copied value.
\<close>

definition withTopic :: "string \<Rightarrow> obj \<Rightarrow> obj" where
  "withTopic topic data = fold (\<lambda>(k, v). AList.update k v) data [(''topic'', JStr topic)]"

text \<open>
  \<^verbatim>\<open>forEach(fn => { try { fn(x); } catch (_) {} })\<close>: each handler is called once, in order;
  what a handler does (it may raise) stays outside the tap, so the call is logged. A
  handler that calls back into the tap while it runs is not modelled.
\<close>

definition callAll :: "handler list \<Rightarrow> obj \<Rightarrow> tap_state \<Rightarrow> tap_state" where
  "callAll hs x st = st\<lparr>busLog := busLog st @ map (\<lambda>h. (h, x)) hs\<rparr>"

definition busEmit :: "tap_state \<Rightarrow> string \<Rightarrow> obj \<Rightarrow> bool \<times> tap_state" where
  "busEmit st topic data =
     (if topic \<in> set objectProtoKeys then (False, st)
      else
        let st1 = (case handlers st topic of None \<Rightarrow> st | Some hs \<Rightarrow> callAll hs data st);
            st2 = (case handlers st1 ''*'' of
                     None \<Rightarrow> st1
                   | Some ws \<Rightarrow> callAll ws (withTopic topic data) st1)
        in (True, st2))"

subsection \<open>Frame helpers\<close>

text \<open>
  \<^verbatim>\<open>(bytes[0] << 24) | (bytes[1] << 16) | (bytes[2] << 8) | bytes[3]\<close>: the shifts and
  the ors of JavaScript work on 32-bit integers and their result is read as a signed one.
  The reads are in range: \<open>decodeFrame\<close> has returned before for a frame under 6 bytes.
\<close>

definition be32 :: "bytes \<Rightarrow> 32 word" where
  "be32 bs = push_bit 24 (ucast (bs ! 0)) OR push_bit 16 (ucast (bs ! 1))
             OR push_bit 8 (ucast (bs ! 2)) OR ucast (bs ! 3)"

definition frameLen :: "bytes \<Rightarrow> int" where
  "frameLen bs = sint (be32 bs)"

text \<open>\<^verbatim>\<open>(bytes[4] << 8) | bytes[5]\<close>\<close>

definition msgIdOf :: "bytes \<Rightarrow> int" where
  "msgIdOf bs = sint ((push_bit 8 (ucast (bs ! 4)) OR ucast (bs ! 5)) :: 32 word)"

text \<open>The test that selects the length-prefixed branch.\<close>

definition isLengthPrefixed :: "bytes \<Rightarrow> bool" where
  "isLengthPrefixed bs = (frameLen bs = int (length bs) \<and> frameLen bs \<ge> 6)"

text \<open>\<^verbatim>\<open>b.toString(16).padStart(2, '0')\<close> and \<^verbatim>\<open>join(' ')\<close>\<close>

definition hexDigit :: "nat \<Rightarrow> char" where
  "hexDigit n = ''0123456789abcdef'' ! n"

definition hex2 :: "8 word \<Rightarrow> string" where
  "hex2 b = [hexDigit (unat b div 16), hexDigit (unat b mod 16)]"

fun joinSp :: "string list \<Rightarrow> string" where
  "joinSp [] = []"
| "joinSp [x] = x"
| "joinSp (x # y # ys) = x @ '' '' @ joinSp (y # ys)"

definition hexOf :: "bytes \<Rightarrow> string" where
  "hexOf bs = joinSp (map hex2 bs)"

text \<open>
  \<^verbatim>\<open>wsUrl.replace(/[?#].*$/, '').substring(0, 80)\<close>: the pattern matches at the first
  \<open>?\<close> or \<open>#\<close> after which no line terminator follows (\<open>.\<close> does not match one and
  \<open>$\<close> is the end of the string); the string is cut there, then to 80 characters.
  Characters are 8-bit here, so the line terminators are the line feed and the carriage return.
\<close>

definition lineTerminator :: "char \<Rightarrow> bool" where
  "lineTerminator c = (c = CHR 0x0A \<or> c = CHR 0x0D)"

fun stripQuery :: "string \<Rightarrow> string" where
  "stripQuery [] = []"
| "stripQuery (c # cs) =
     (if (c = CHR ''?'' \<or> c = CHR ''#'') \<and> list_all (\<lambda>d. \<not> lineTerminator d) cs then []
      else c # stripQuery cs)"

definition trimUrl :: "string \<Rightarrow> string" where
  "trimUrl wsUrl = take 80 (stripQuery wsUrl)"

text \<open>\<^verbatim>\<open>topicStr.includes('.') ? topicStr.split('.').pop() : topicStr\<close>\<close>

fun splitDot :: "string \<Rightarrow> string list" where
  "splitDot [] = [[]]"
| "splitDot (c # cs) =
     (if c = CHR ''.'' then [] # splitDot cs
      else (case splitDot cs of [] \<Rightarrow> [[c]] | x # xs \<Rightarrow> (c # x) # xs))"

definition lastSegment :: "string \<Rightarrow> string" where
  "lastSegment topicStr =
     (if CHR ''.'' \<in> set topicStr then last (splitDot topicStr) else topicStr)"

text \<open>
  The \<^verbatim>\<open>try { decoded = JSON.parse(JSON.stringify(decoder.decode(body))) }
  catch (_) { decoded = { _raw: Array.from(body).slice(0, 32) } }\<close> of both branches.
\<close>

definition rawFallback :: "bytes \<Rightarrow> json" where
  "rawFallback body = JObj [(''_raw'', JArr (map (\<lambda>b. JNum (uint b)) (take 32 body)))]"

definition decodeWith :: "codec \<Rightarrow> bytes \<Rightarrow> json" where
  "decodeWith c body = (case decode c body of Some v \<Rightarrow> v | None \<Rightarrow> rawFallback body)"

text \<open>\<^verbatim>\<open>if (decoded && decoded.roomId) _lastRoomId = decoded.roomId\<close>\<close>

definition noteRoom :: "tap_state \<Rightarrow> json \<Rightarrow> tap_state" where
  "noteRoom st decoded =
     (if truthy decoded then
        (case jget ''roomId'' decoded of
           None \<Rightarrow> st
         | Some rid \<Rightarrow> if truthy rid then st\<lparr>lastRoomId := Some rid\<rparr> else st)
      else st)"

definition mkEvent :: "string \<Rightarrow> string \<Rightarrow> json \<Rightarrow> int \<Rightarrow> string \<Rightarrow> json \<Rightarrow> obj" where
  "mkEvent ns typeName msgId ts wsUrl decoded =
     [(''type'', JStr ''proto_event''), (''ns'', JStr ns), (''topic'', JStr typeName),
      (''msgId'', msgId), (''ts'', JNum ts), (''wsUrl'', JStr (trimUrl wsUrl)),
      (''data'', decoded)]"

definition mkUnknown :: "int \<Rightarrow> int \<Rightarrow> int \<Rightarrow> string \<Rightarrow> bytes \<Rightarrow> bytes \<Rightarrow> obj" where
  "mkUnknown msgId len ts wsUrl bs bodyBytes =
     [(''type'', JStr ''unknown_frame''), (''msgId'', JNum msgId), (''len'', JNum len),
      (''ts'', JNum ts), (''wsUrl'', JStr (trimUrl wsUrl)), (''hex'', JStr (hexOf bs)),
      (''bodyHex'', JStr (hexOf bodyBytes)), (''bodyLen'', JNum (int (length bodyBytes)))]"

subsection \<open>Decode\<close>

text \<open>What a call of \<open>decodeFrame\<close> gives its caller: \<^verbatim>\<open>null\<close>, an event, or an exception.\<close>

datatype outcome = Null | Event obj | Raised

text \<open>The body of \<^verbatim>\<open>if (frameLen === bytes.length && frameLen >= 6) { ... }\<close>.\<close>

definition decodeLengthPrefixed ::
    "env \<Rightarrow> registry \<Rightarrow> bytes \<Rightarrow> string \<Rightarrow> tap_state \<Rightarrow> outcome \<times> tap_state" where
  "decodeLengthPrefixed e r bs wsUrl st =
     (let msgId = msgIdOf bs in
      case idToType st msgId of
        Some (ns, typeName) \<Rightarrow>
          if typeName \<in> set SKIP_TOPICS then (Null, st)
          else
            let decoder = (case r ns of None \<Rightarrow> None | Some nsObj \<Rightarrow> msgTypes nsObj typeName);
                decoded = (case decoder of
                             None \<Rightarrow> JNull
                           | Some c \<Rightarrow> if length bs > 6 then decodeWith c (drop 6 bs) else JNull);
                st1 = noteRoom st decoded;
                evt = mkEvent ns typeName (JNum msgId) (now e) wsUrl decoded;
                st2 = relayEmit e st1 evt;
                st3 = pushRing st2 evt
            in (case busEmit st3 typeName evt of
                  (True, st4) \<Rightarrow> (Event evt, st4)
                | (False, st4) \<Rightarrow> (Raised, st4))
      | None \<Rightarrow>
          let bodyBytes = (if length bs > 6 then drop 6 bs else []);
              entry = mkUnknown msgId (frameLen bs) (now e) wsUrl bs bodyBytes;
              st1 = pushUnknown st entry;
              st2 = relayEmit e st1 entry
          in (Null, st2))"

text \<open>
  The inner search \<^verbatim>\<open>for (const tryNs of GAME_NAMESPACES)\<close> for a decoder of \<open>typeName\<close>.
\<close>

fun findDecoder :: "registry \<Rightarrow> string \<Rightarrow> string list \<Rightarrow> (codec \<times> string) option" where
  "findDecoder r typeName [] = None"
| "findDecoder r typeName (tryNs # rest) =
     (case r tryNs of
        None \<Rightarrow> findDecoder r typeName rest
      | Some nsObj \<Rightarrow>
         (case msgTypes nsObj typeName of
            None \<Rightarrow> findDecoder r typeName rest
          | Some c \<Rightarrow> Some (c, tryNs)))"

text \<open>
  One iteration of the wrapper loop from \<^verbatim>\<open>const topicStr = w.topic\<close> on: it always returns.
\<close>

definition wrapperBody ::
    "env \<Rightarrow> registry \<Rightarrow> string \<Rightarrow> string \<Rightarrow> ns_obj \<Rightarrow> wrapper \<Rightarrow> tap_state
     \<Rightarrow> outcome \<times> tap_state" where
  "wrapperBody e r wsUrl ns nsObj w st =
     (let typeName = lastSegment (w_topic w) in
      if typeName \<in> set SKIP_TOPICS then (Null, st)
      else
        let (decoder, decoderNs) =
              (case msgTypes nsObj typeName of
                 Some c \<Rightarrow> (Some c, ns)
               | None \<Rightarrow>
                  (case findDecoder r typeName GAME_NAMESPACES of
                     Some (c, tryNs) \<Rightarrow> (Some c, tryNs)
                   | None \<Rightarrow> (None, ns)));
            decoded = (case decoder of
                         None \<Rightarrow> JNull
                       | Some c \<Rightarrow> if length (w_body w) > 0 then decodeWith c (w_body w) else JNull);
            st1 = noteRoom st decoded;
            msgId = (case lookupMsgId st1 decoderNs typeName of None \<Rightarrow> JNull | Some i \<Rightarrow> JNum i);
            evt = mkEvent decoderNs typeName msgId (now e) wsUrl decoded;
            st2 = relayEmit e st1 evt;
            st3 = pushRing st2 evt
        in (case busEmit st3 typeName evt of
              (False, st4) \<Rightarrow> (Raised, st4)
            | (True, st4) \<Rightarrow>
               if decoderNs \<noteq> ns then
                 (case busEmit st4 (decoderNs @ ''.'' @ typeName) evt of
                    (False, st5) \<Rightarrow> (Raised, st5)
                  | (True, st5) \<Rightarrow> (Event evt, st5))
               else (Event evt, st4)))"

text \<open>
  The loop \<^verbatim>\<open>for (const ns of GAME_NAMESPACES)\<close>. A call of \<^verbatim>\<open>nsObj.Wrapper.decode\<close> is
  logged in \<open>wrapperCalls\<close>; \<open>wdecode\<close> gives \<open>None\<close> where the call raises or returns
  nothing, and an empty topic is a falsy one: each of these goes to the next namespace.
\<close>

fun decodeWrapper ::
    "env \<Rightarrow> registry \<Rightarrow> bytes \<Rightarrow> string \<Rightarrow> string list \<Rightarrow> tap_state \<Rightarrow> outcome \<times> tap_state" where
  "decodeWrapper e r bs wsUrl [] st = (Null, st)"
| "decodeWrapper e r bs wsUrl (ns # rest) st =
     (case r ns of
        None \<Rightarrow> decodeWrapper e r bs wsUrl rest st
      | Some nsObj \<Rightarrow>
         (case Wrapper nsObj of
            None \<Rightarrow> decodeWrapper e r bs wsUrl rest st
          | Some wc \<Rightarrow>
             (case wdecode wc bs of
                None \<Rightarrow> decodeWrapper e r bs wsUrl rest (st\<lparr>wrapperCalls := wrapperCalls st @ [ns]\<rparr>)
              | Some w \<Rightarrow>
                 if w_topic w = [] then
                   decodeWrapper e r bs wsUrl rest (st\<lparr>wrapperCalls := wrapperCalls st @ [ns]\<rparr>)
                 else wrapperBody e r wsUrl ns nsObj w (st\<lparr>wrapperCalls := wrapperCalls st @ [ns]\<rparr>))))"

definition decodeFrame :: "env \<Rightarrow> tap_state \<Rightarrow> bytes \<Rightarrow> string \<Rightarrow> outcome \<times> tap_state" where
  "decodeFrame e st bs wsUrl =
     (case resolvePb e st of
        (None, st1) \<Rightarrow> (Null, st1)
      | (Some r, st1) \<Rightarrow>
          if length bs < 6 then (Null, st1)
          else if frameLen bs = int (length bs) \<and> frameLen bs \<ge> 6
          then decodeLengthPrefixed e r bs wsUrl st1
          else decodeWrapper e r bs wsUrl GAME_NAMESPACES st1)"

subsection \<open>Socket registry and action sender\<close>

text \<open>\<^verbatim>\<open>String.prototype.includes\<close>\<close>

fun startsWith :: "string \<Rightarrow> string \<Rightarrow> bool" where
  "startsWith s [] = True"
| "startsWith [] (p # ps) = False"
| "startsWith (c # cs) (p # ps) = (c = p \<and> startsWith cs ps)"

fun str_includes :: "string \<Rightarrow> string \<Rightarrow> bool" where
  "str_includes [] sub = startsWith [] sub"
| "str_includes (c # cs) sub = (startsWith (c # cs) sub \<or> str_includes cs sub)"

definition isLocal :: "string \<Rightarrow> bool" where
  "isLocal url = (str_includes url ''localhost'' \<or> str_includes url ''127.0.0.1'')"

text \<open>
  \<open>sockets\<close> is a \<^verbatim>\<open>Map\<close>: \<^verbatim>\<open>set\<close> on a key that is present keeps its place in the
  iteration order. A socket is patched once (\<^verbatim>\<open>_patchedSockets\<close>).
\<close>

definition patchSocket :: "tap_state \<Rightarrow> ws_id \<Rightarrow> sock_key \<Rightarrow> tap_state" where
  "patchSocket st ws url =
     (if ws \<in> set (patchedSockets st) then st
      else st\<lparr>patchedSockets := ws # patchedSockets st,
              sockets := AList.update url ws (sockets st)\<rparr>)"

text \<open>The \<^verbatim>\<open>close\<close> listener that \<open>patchSocket ws url\<close> installs.\<close>

definition socketOnClose :: "tap_state \<Rightarrow> ws_id \<Rightarrow> sock_key \<Rightarrow> tap_state" where
  "socketOnClose st ws url =
     (if map_of (sockets st) url = Some ws then st\<lparr>sockets := AList.delete url (sockets st)\<rparr>
      else st)"

text \<open>\<^verbatim>\<open>ProxiedWebSocket\<close>: the new socket \<open>ws\<close> is patched unless its address is local.\<close>

definition proxiedWebSocket :: "tap_state \<Rightarrow> ws_id \<Rightarrow> string \<Rightarrow> tap_state" where
  "proxiedWebSocket st ws urlStr =
     (if \<not> isLocal urlStr then patchSocket st ws (KStr urlStr) else st)"

text \<open>
  \<^verbatim>\<open>attachToSocket(ws)\<close>: refused (\<open>False\<close>) for an object without an
  \<^verbatim>\<open>addEventListener\<close> function; otherwise the object is patched under the key
  \<^verbatim>\<open>ws.url || ''\<close>, local or not. \<open>urlProp\<close> is the \<^verbatim>\<open>url\<close> property of the object,
  \<open>None\<close> when it has none; the empty string and the number 0 are falsy.
\<close>

definition attachToSocket ::
    "tap_state \<Rightarrow> ws_id \<Rightarrow> bool \<Rightarrow> sock_key option \<Rightarrow> bool \<times> tap_state" where
  "attachToSocket st ws hasAddEventListener urlProp =
     (if \<not> hasAddEventListener then (False, st)
      else
        let url = (case urlProp of
                     None \<Rightarrow> KStr []
                   | Some (KStr u) \<Rightarrow> KStr u
                   | Some (KNum n) \<Rightarrow> if n = 0 then KStr [] else KNum n)
        in (True, patchSocket st ws url))"

definition WS_OPEN :: nat where
  "WS_OPEN = 1"

text \<open>
  The loop \<^verbatim>\<open>for (const [url, ws] of sockets)\<close> of \<open>sendAction\<close>, in insertion order. It
  stands before the \<^verbatim>\<open>try\<close>: \<^verbatim>\<open>url.includes\<close> on a key that is not a string raises to the
  caller of \<open>sendAction\<close>.
\<close>

fun selectGameWs :: "env \<Rightarrow> (sock_key \<times> ws_id) list \<Rightarrow> ws_id option completion" where
  "selectGameWs e [] = Returned None"
| "selectGameWs e ((KNum n, ws) # rest) = Threw"
| "selectGameWs e ((KStr url, ws) # rest) =
     (if \<not> str_includes url ''localhost'' \<and> \<not> str_includes url ''127.0.0.1''
         \<and> wsReadyState e ws = WS_OPEN
      then Returned (Some ws) else selectGameWs e rest)"

text \<open>
  The \<^verbatim>\<open>try\<close> block of \<open>sendAction\<close>: \<open>None\<close> where it raises (a missing \<^verbatim>\<open>ActionReq\<close> or
  \<^verbatim>\<open>Wrapper\<close> member, an encoder that raises, a \<^verbatim>\<open>send\<close> that raises), the bytes sent
  otherwise.
\<close>

definition encodeAndSend ::
    "env \<Rightarrow> ns_obj \<Rightarrow> ws_id \<Rightarrow> json \<Rightarrow> json \<Rightarrow> json \<Rightarrow> bytes option" where
  "encodeAndSend e holdem gameWs roomId action coin =
     (case msgTypes holdem ''ActionReq'' of
        None \<Rightarrow> None
      | Some actionReq \<Rightarrow>
         (case encode actionReq (JObj [(''roomId'', roomId), (''action'', action), (''coin'', coin)]) of
            None \<Rightarrow> None
          | Some body \<Rightarrow>
             (case Wrapper holdem of
                None \<Rightarrow> None
              | Some wc \<Rightarrow>
                 (case wencode wc \<lparr>w_topic = ''holdem.ActionReq'', w_body = body\<rparr> of
                    None \<Rightarrow> None
                  | Some buf \<Rightarrow> if wsSendThrows e gameWs buf then None else Some buf))))"

text \<open>
  \<open>sendAction\<close>: the guard and the \<^verbatim>\<open>try\<close> block return a boolean; the loop between them
  can raise.
\<close>

definition sendAction ::
    "env \<Rightarrow> tap_state \<Rightarrow> json \<Rightarrow> json \<Rightarrow> json \<Rightarrow> bool completion \<times> tap_state" where
  "sendAction e st roomId action coin =
     (case pb st of
        None \<Rightarrow> (Returned False, st)
      | Some r \<Rightarrow>
         (case r ''holdem'' of
            None \<Rightarrow> (Returned False, st)
          | Some holdem \<Rightarrow>
             (case selectGameWs e (sockets st) of
                Threw \<Rightarrow> (Threw, st)
              | Returned None \<Rightarrow> (Returned False, st)
              | Returned (Some gameWs) \<Rightarrow>
                 (case encodeAndSend e holdem gameWs roomId action coin of
                    None \<Rightarrow> (Returned False, st)
                  | Some buf \<Rightarrow> (Returned True, st\<lparr>wsSent := wsSent st @ [(gameWs, buf)]\<rparr>)))))"

subsection \<open>Startup\<close>

text \<open>
  One tick of the \<^verbatim>\<open>pbPoll\<close> interval; the interval is cleared by the first tick that finds
  the registry.
\<close>

definition pbPollTick :: "env \<Rightarrow> tap_state \<Rightarrow> tap_state" where
  "pbPollTick e st =
     (if \<not> polling st then st
      else
        (case resolvePb e st of
           (None, st1) \<Rightarrow> st1
         | (Some r, st1) \<Rightarrow>
            (let st2 = fold (\<lambda>ns s. buildIdMap s ns) GAME_NAMESPACES (st1\<lparr>polling := False\<rparr>);
                 st3 = buildReverseIdMap r st2
             in snd (busEmit st3 ''__proto_ready''
                       [(''namespaces'', JArr (map JStr (pbNamespaces e)))]))))"

section \<open>Notions used in the statements\<close>

text \<open>The handlers registered for a topic, in registration order.\<close>

definition handlersFor :: "tap_state \<Rightarrow> string \<Rightarrow> handler list" where
  "handlersFor st topic = (case handlers st topic of None \<Rightarrow> [] | Some hs \<Rightarrow> hs)"

text \<open>
  The first four bytes of a frame read as a big-endian unsigned 32-bit integer, in the
  words of the specification.
\<close>

definition declaredLength :: "bytes \<Rightarrow> nat" where
  "declaredLength bs =
     unat (bs ! 0) * 16777216 + unat (bs ! 1) * 65536 + unat (bs ! 2) * 256 + unat (bs ! 3)"

text \<open>The registry that \<open>resolvePb\<close> finds: the cached one, else the one of the page.\<close>

definition resolved :: "env \<Rightarrow> tap_state \<Rightarrow> registry option" where
  "resolved e st = (case pb st of Some r \<Rightarrow> Some r | None \<Rightarrow> windowPb e)"

text \<open>The record captured for a length-prefixed frame with an unknown message id.\<close>

definition unknownEntry :: "env \<Rightarrow> bytes \<Rightarrow> string \<Rightarrow> obj" where
  "unknownEntry e bs wsUrl =
     mkUnknown (msgIdOf bs) (int (length bs)) (now e) wsUrl bs (drop 6 bs)"


text \<open>
  The first namespace, in the given order, whose envelope decoder accepts the frame and
  yields a non-empty topic, with that envelope.
\<close>

fun firstEnvelope :: "registry \<Rightarrow> bytes \<Rightarrow> string list \<Rightarrow> (string \<times> wrapper) option" where
  "firstEnvelope r bs [] = None"
| "firstEnvelope r bs (ns # rest) =
     (case r ns of
        None \<Rightarrow> firstEnvelope r bs rest
      | Some nsObj \<Rightarrow>
         (case Wrapper nsObj of
            None \<Rightarrow> firstEnvelope r bs rest
          | Some wc \<Rightarrow>
             (case wdecode wc bs of
                None \<Rightarrow> firstEnvelope r bs rest
              | Some w \<Rightarrow> if w_topic w = [] then firstEnvelope r bs rest else Some (ns, w))))"

text \<open>
  The type name a frame resolves to: through the reverse id map under the length-prefixed
  scheme, as the last segment of the envelope's topic under the wrapper scheme.
\<close>

definition resolvedTypeName :: "env \<Rightarrow> tap_state \<Rightarrow> bytes \<Rightarrow> string option" where
  "resolvedTypeName e st bs =
     (case resolved e st of
        None \<Rightarrow> None
      | Some r \<Rightarrow>
         if length bs < 6 then None
         else if isLengthPrefixed bs then map_option snd (idToType st (msgIdOf bs))
         else map_option (\<lambda>p. lastSegment (w_topic (snd p))) (firstEnvelope r bs GAME_NAMESPACES))"





text \<open>
  The states the tap can be in: the initial one, and what the modelled operations (the
  startup poll, a frame decoded with the address string of its socket, the relay's open
  and close events, the bus operations, the socket proxy, attach and close, an action) make
  of such a state, in any environment. The send hook tracks a socket as the proxy does.
\<close>

inductive reachable :: "tap_state \<Rightarrow> bool" where
  r_init: "reachable init_state"
| r_poll: "reachable st \<Longrightarrow> reachable (pbPollTick e st)"
| r_frame: "reachable st \<Longrightarrow> reachable (snd (decodeFrame e st bs wsUrl))"
| r_open: "reachable st \<Longrightarrow> reachable (relayOnOpen e st)"
| r_close: "reachable st \<Longrightarrow> reachable (fst (relayOnClose st))"
| r_on: "reachable st \<Longrightarrow> reachable (snd (busOn st topic fn))"
| r_off: "reachable st \<Longrightarrow> reachable (snd (busOff st topic fn))"
| r_socket: "reachable st \<Longrightarrow> reachable (proxiedWebSocket st ws url)"
| r_attach: "reachable st \<Longrightarrow> reachable (snd (attachToSocket st ws ok urlProp))"
| r_closed: "reachable st \<Longrightarrow> reachable (socketOnClose st ws url)"
| r_action: "reachable st \<Longrightarrow> reachable (snd (sendAction e st roomId action coin))"

text \<open>What every reachable state satisfies.\<close>

definition tapInv :: "tap_state \<Rightarrow> bool" where
  "tapInv st = (idToType st 0 = None \<and> length (queue st) \<le> 500
     \<and> length (lastEvents st) \<le> RING_SIZE \<and> length (unknownFrames st) \<le> UNKNOWN_RING)"

section \<open>Concrete inputs\<close>

text \<open>An environment with no registry yet, in which no send raises and every socket is open.\<close>

definition quiet_env :: env where
  "quiet_env = \<lparr> windowPb = None, now = 1700000000000, relayThrows = (\<lambda>n j. False),
     wsReadyState = (\<lambda>w. WS_OPEN), wsSendThrows = (\<lambda>w b. False), pbNamespaces = [] \<rparr>"

text \<open>Both ring buffers at capacity, and the offline queue at capacity.\<close>

definition full_rings :: tap_state where
  "full_rings = init_state\<lparr>
     lastEvents := map (\<lambda>i. [(''n'', JNum (int i))]) [0..<200],
     unknownFrames := map (\<lambda>i. [(''u'', JNum (int i))]) [0..<500]\<rparr>"

definition full_queue :: tap_state where
  "full_queue = init_state\<lparr>queue := map (\<lambda>i. [(''n'', JNum (int i))]) [0..<500]\<rparr>"

text \<open>
  Three queued payloads and a relay on which the second send attempt (attempt number 1,
  counting from 0) raises.
\<close>

definition flush_env :: env where
  "flush_env = quiet_env\<lparr>relayThrows := (\<lambda>n j. n = 1)\<rparr>"

definition flush_state :: tap_state where
  "flush_state = init_state\<lparr>retries := 3,
     queue := [[(''n'', JNum 1)], [(''n'', JNum 2)], [(''n'', JNum 3)]]\<rparr>"

text \<open>
  A registry with two namespaces. \<open>holdem\<close> has an envelope codec, an \<^verbatim>\<open>ActionReq\<close> type
  and an enumeration that gives the id 0 to a name; \<open>commonProto\<close> has the types \<open>Foo\<close>
  (id 42) and \<open>Ping\<close> (id 7). The envelope decoder reads a frame that starts with the byte
  11 as topic \<^verbatim>\<open>holdem.Ping\<close> and any other frame as topic \<^verbatim>\<open>holdem.Foo\<close>.
\<close>

definition demo_reg :: registry where
  "demo_reg = (\<lambda>ns.
     if ns = ''holdem'' then
       Some \<lparr> MessageId = Some [(''Idle'', 0), (''ActionReq'', 5)],
              Wrapper = Some \<lparr>
                wdecode = (\<lambda>bs. if bs ! 0 = 11 then Some \<lparr>w_topic = ''holdem.Ping'', w_body = []\<rparr>
                               else Some \<lparr>w_topic = ''holdem.Foo'', w_body = [1]\<rparr>),
                wencode = (\<lambda>w. Some (10 # w_body w)) \<rparr>,
              msgTypes = (\<lambda>t. if t = ''ActionReq'' then
                   Some \<lparr> decode = (\<lambda>bs. None), encode = (\<lambda>j. Some [8, 7, 16, 5]) \<rparr>
                 else None) \<rparr>
     else if ns = ''commonProto'' then
       Some \<lparr> MessageId = Some [(''Foo'', 42), (''Ping'', 7)],
              Wrapper = None,
              msgTypes = (\<lambda>t. if t = ''Foo'' then
                   Some \<lparr> decode = (\<lambda>bs. Some (JObj [(''roomId'', JNum 7)])),
                          encode = (\<lambda>j. None) \<rparr>
                 else None) \<rparr>
     else None)"

definition demo_env :: env where
  "demo_env = quiet_env\<lparr>windowPb := Some demo_reg,
     wsReadyState := (\<lambda>w. if w = 2 then 3 else WS_OPEN),
     pbNamespaces := [''holdem'', ''commonProto'']\<rparr>"

text \<open>
  Three subscriptions on a fresh tap (handler 1 on \<open>Foo\<close>, handler 2 on the composite topic
  \<^verbatim>\<open>commonProto.Foo\<close>, handler 3 on the wildcard), and then the startup poll.
\<close>

definition subscribed :: tap_state where
  "subscribed = snd (busOn (snd (busOn (snd (busOn init_state ''Foo'' 1))
                   ''commonProto.Foo'' 2)) ''*'' 3)"

definition ready_state :: tap_state where
  "ready_state = pbPollTick demo_env subscribed"

definition demo_url :: string where
  "demo_url = ''wss://game.example/ws?token=1''"

text \<open>
  Frames: length-prefixed ones of 10 bytes with the ids 42 (known) and 9999 (unknown), of 6
  bytes with the ids 0 and 7 (\<open>Ping\<close>); two envelopes; and a frame of \<open>2^31\<close> bytes whose
  first four bytes are \<^verbatim>\<open>80 00 00 00\<close>.
\<close>

definition known_frame :: bytes where
  "known_frame = [0, 0, 0, 10, 0, 42, 1, 2, 3, 4]"

definition unknown_frame :: bytes where
  "unknown_frame = [0, 0, 0, 10, 39, 15, 1, 2, 3, 4]"

definition zero_frame :: bytes where
  "zero_frame = [0, 0, 0, 6, 0, 0]"

definition ping_frame :: bytes where
  "ping_frame = [0, 0, 0, 6, 0, 7]"

definition ping_envelope :: bytes where
  "ping_envelope = [11, 4, 80, 105, 110, 103]"

definition foo_envelope :: bytes where
  "foo_envelope = [10, 3, 70, 111, 111, 18, 1, 9]"

definition huge_frame :: bytes where
  "huge_frame = 128 # 0 # 0 # 0 # replicate 2147483644 0"

text \<open>The event that \<open>decodeFrame\<close> builds for \<open>foo_envelope\<close> in \<open>ready_state\<close>.\<close>

definition foo_event :: obj where
  "foo_event = [(''type'', JStr ''proto_event''), (''ns'', JStr ''commonProto''),
     (''topic'', JStr ''Foo''), (''msgId'', JNum 42), (''ts'', JNum 1700000000000),
     (''wsUrl'', JStr ''wss://game.example/ws''), (''data'', JObj [(''roomId'', JNum 7)])]"








section \<open>Properties\<close>

subsection \<open>Ring buffers\<close>

lemma ringPush_length: "length xs \<le> cap \<Longrightarrow> length (ringPush cap xs x) \<le> cap"
  by (auto simp: ringPush_def Let_def)

lemma ringPush_drop:
  "length xs \<le> cap \<Longrightarrow> ringPush cap xs x = drop (length (xs @ [x]) - cap) (xs @ [x])"
  by (cases xs) (auto simp: ringPush_def Let_def drop_Cons')

lemma ringPush_full: "length xs = cap \<Longrightarrow> 0 < cap \<Longrightarrow> ringPush cap xs x = tl xs @ [x]"
  by (cases xs) (auto simp: ringPush_def Let_def)

text \<open>Any run of pushes leaves the last \<open>cap\<close> items, in the order they were pushed.\<close>

lemma fold_ringPush:
  "length xs \<le> cap \<Longrightarrow>
   fold (\<lambda>x b. ringPush cap b x) items xs = drop (length (xs @ items) - cap) (xs @ items)"
proof (induction items arbitrary: xs)
  case Nil
  then show ?case by simp
next
  case (Cons a items)
  have l: "length (ringPush cap xs a) \<le> cap"
    using Cons.prems by (rule ringPush_length)
  define ys where "ys = xs @ [a]"
  define k where "k = length ys - cap"
  have rp: "ringPush cap xs a = drop k ys"
    using ringPush_drop [OF Cons.prems, of a] by (simp add: ys_def k_def)
  have kle: "k \<le> length ys"
    by (simp add: k_def)
  have "fold (\<lambda>x b. ringPush cap b x) (a # items) xs
        = drop (length (drop k ys @ items) - cap) (drop k ys @ items)"
    using Cons.IH [OF l] by (simp add: rp)
  also have "drop k ys @ items = drop k (ys @ items)"
    using kle by simp
  also have "drop (length (drop k (ys @ items)) - cap) (drop k (ys @ items))
        = drop (length (ys @ items) - cap) (ys @ items)"
  proof -
    have "length (drop k (ys @ items)) - cap + k = length (ys @ items) - cap"
      using Cons.prems by (simp add: k_def ys_def)
    then show ?thesis by (simp only: drop_drop)
  qed
  also have "ys @ items = xs @ a # items"
    by (simp add: ys_def)
  finally show ?case .
qed

lemma lastEvents_fold:
  "lastEvents (fold (\<lambda>x s. pushRing s x) items st)
   = fold (\<lambda>x b. ringPush RING_SIZE b x) items (lastEvents st)"
  by (induction items arbitrary: st) (simp_all add: pushRing_def)

lemma unknownFrames_fold:
  "unknownFrames (fold (\<lambda>x s. pushUnknown s x) items st)
   = fold (\<lambda>x b. ringPush UNKNOWN_RING b x) items (unknownFrames st)"
  by (induction items arbitrary: st) (simp_all add: pushUnknown_def)

subsection \<open>Relay\<close>

lemma flushLoop_length: "length (fst (flushLoop e q n s)) \<le> length q"
  by (induction e q n s rule: flushLoop.induct) auto

text \<open>
  The flush sends a prefix of the queue in order; when a send raises, the payload it was
  given has already left the queue, and what stays queued is what came after it.
\<close>

lemma flushLoop_shape:
  "\<exists>k \<le> length q. flushLoop e q n s =
      (drop (Suc k) q, n + min (Suc k) (length q), s @ take k q) \<and>
      (\<forall>i < k. \<not> relayThrows e (n + i) (q ! i)) \<and>
      (k < length q \<longrightarrow> relayThrows e (n + k) (q ! k))"
proof (induction e q n s rule: flushLoop.induct)
  case (1 e n sent)
  then show ?case by simp
next
  case (2 e q qs n sent)
  show ?case
  proof (cases "relayThrows e n q")
    case True
    then show ?thesis by (intro exI [of _ 0]) simp
  next
    case False
    from 2 [OF False] obtain k where k: "k \<le> length qs"
      "flushLoop e qs (Suc n) (sent @ [q]) =
        (drop (Suc k) qs, Suc n + min (Suc k) (length qs), (sent @ [q]) @ take k qs)"
      "\<forall>i < k. \<not> relayThrows e (Suc n + i) (qs ! i)"
      "k < length qs \<longrightarrow> relayThrows e (Suc n + k) (qs ! k)"
      by blast
    show ?thesis
    proof (intro exI [of _ "Suc k"] conjI allI impI)
      fix i assume "i < Suc k"
      then show "\<not> relayThrows e (n + i) ((q # qs) ! i)"
        using False k(3) by (cases i) auto
    qed (use False k in auto)
  qed
qed

lemma relayEmit_frame [simp]:
  "lastEvents (relayEmit e st j) = lastEvents st"
  "unknownFrames (relayEmit e st j) = unknownFrames st"
  "busLog (relayEmit e st j) = busLog st"
  "idToType (relayEmit e st j) = idToType st"
  "pb (relayEmit e st j) = pb st"
  by (simp_all add: relayEmit_def relaySend_def Let_def)

lemma relayEmit_sent:
  "relayOk st \<Longrightarrow> \<not> relayThrows e (relaySends st) j \<Longrightarrow>
   relaySent (relayEmit e st j) = relaySent st @ [j] \<and> queue (relayEmit e st j) = queue st"
  by (simp add: relayEmit_def relaySend_def Let_def)

lemma relayEmit_queued:
  "\<not> relayOk st \<or> relayThrows e (relaySends st) j \<Longrightarrow> length (queue st) < 500 \<Longrightarrow>
   queue (relayEmit e st j) = queue st @ [j] \<and> relaySent (relayEmit e st j) = relaySent st"
  by (auto simp: relayEmit_def relaySend_def Let_def)

lemma pushUnknown_frame [simp]:
  "lastEvents (pushUnknown st x) = lastEvents st"
  "busLog (pushUnknown st x) = busLog st"
  "queue (pushUnknown st x) = queue st"
  "relayOk (pushUnknown st x) = relayOk st"
  "relaySends (pushUnknown st x) = relaySends st"
  "relaySent (pushUnknown st x) = relaySent st"
  "unknownFrames (pushUnknown st x) = ringPush UNKNOWN_RING (unknownFrames st) x"
  by (simp_all add: pushUnknown_def)

subsection \<open>The frame header\<close>

text \<open>The ors of the four shifted bytes add up: no two of them share a bit.\<close>

lemma or4_sum:
  fixes a b c d :: "8 word"
  shows "(push_bit 24 (ucast a) OR push_bit 16 (ucast b) OR push_bit 8 (ucast c) OR ucast d :: 32 word)
       = push_bit 24 (ucast a) + (push_bit 16 (ucast b) + (push_bit 8 (ucast c) + ucast d))"
proof -
  have 1: "push_bit 8 (ucast c) + (ucast d :: 32 word) = push_bit 8 (ucast c) OR ucast d"
    by (rule disjunctive_add) (auto simp: bit_simps dest: bit_imp_le_length)
  have 2: "push_bit 16 (ucast b) + (push_bit 8 (ucast c) OR ucast d :: 32 word)
         = push_bit 16 (ucast b) OR (push_bit 8 (ucast c) OR ucast d)"
    by (rule disjunctive_add) (auto simp: bit_simps dest: bit_imp_le_length)
  have 3: "push_bit 24 (ucast a) + (push_bit 16 (ucast b) OR (push_bit 8 (ucast c) OR ucast d) :: 32 word)
         = push_bit 24 (ucast a) OR (push_bit 16 (ucast b) OR (push_bit 8 (ucast c) OR ucast d))"
    by (rule disjunctive_add) (auto simp: bit_simps dest: bit_imp_le_length)
  show ?thesis
    by (simp only: 1 2 3)
qed

lemma unat8_bound: "unat (a :: 8 word) < 256"
  using unsigned_less [of a, where 'a = nat] by simp

lemma unat_ucast8: "unat (ucast (a :: 8 word) :: 32 word) = unat a"
proof -
  have "unat a < 2 ^ 32"
    using unat8_bound [of a] by simp
  then show ?thesis
    by (simp add: unsigned_ucast_eq take_bit_nat_eq_self)
qed

lemma unat_be:
  fixes a b c d :: "8 word"
  shows "unat (push_bit 24 (ucast a) + (push_bit 16 (ucast b) + (push_bit 8 (ucast c) + ucast d)) :: 32 word)
       = unat a * 16777216 + unat b * 65536 + unat c * 256 + unat d"
proof -
  have a: "unat a < 256" and b: "unat b < 256" and c: "unat c < 256" and d: "unat d < 256"
    by (rule unat8_bound)+
  have "unat (push_bit 24 (ucast a) + (push_bit 16 (ucast b) + (push_bit 8 (ucast c) + ucast d)) :: 32 word)
      = (unat a * 16777216 + unat b * 65536 + unat c * 256 + unat d) mod 4294967296"
    apply (simp add: push_bit_eq_mult unat_word_ariths unat_ucast8 mod_simps)
    apply (simp add: ac_simps)
    done
  also have "\<dots> = unat a * 16777216 + unat b * 65536 + unat c * 256 + unat d"
    using a b c d by simp
  finally show ?thesis .
qed

lemma unat_be32: "unat (be32 bs) = declaredLength bs"
  unfolding be32_def declaredLength_def by (simp only: or4_sum unat_be)

text \<open>The signed reading of a 32-bit word against the unsigned one.\<close>

lemma sint32_cases:
  fixes w :: "32 word"
  shows "sint w = (if unat w < 2147483648 then int (unat w) else int (unat w) - 4294967296)"
proof -
  define n where "n = unat w"
  have n1: "n < 4294967296"
    using unsigned_less [of w, where 'a = nat] by (simp add: n_def)
  have s: "sint w = (int n + 2147483648) mod 4294967296 - 2147483648"
    by (simp add: sint_uint signed_take_bit_eq_take_bit_shift take_bit_eq_mod n_def)
  show ?thesis
  proof (cases "n < 2147483648")
    case True
    then have "(int n + 2147483648) mod 4294967296 = int n + 2147483648"
      by (intro mod_pos_pos_trivial) simp_all
    with True s show ?thesis
      by (simp add: n_def [symmetric])
  next
    case False
    have "(int n + 2147483648) mod 4294967296
          = ((int n - 2147483648) + 4294967296) mod 4294967296"
      by (simp add: algebra_simps)
    also have "\<dots> = (int n - 2147483648) mod 4294967296"
      by (rule mod_add_self2)
    also have "\<dots> = int n - 2147483648"
      using False n1 by (intro mod_pos_pos_trivial) simp_all
    finally show ?thesis
      using False s by (simp add: n_def [symmetric])
  qed
qed

lemma declaredLength_bound: "declaredLength bs < 4294967296"
  using unsigned_less [of "be32 bs", where 'a = nat] by (simp add: unat_be32)

text \<open>
  The value the code compares with the length of the frame is the unsigned reading of the
  header exactly for frames of fewer than \<open>2^31\<close> bytes.
\<close>

lemma frameLen_iff:
  "frameLen bs = int (length bs) \<longleftrightarrow> declaredLength bs = length bs \<and> length bs < 2147483648"
  using declaredLength_bound [of bs]
  unfolding frameLen_def sint32_cases unat_be32 by auto

lemma isLengthPrefixed_iff:
  "isLengthPrefixed bs \<longleftrightarrow>
     declaredLength bs = length bs \<and> 6 \<le> length bs \<and> length bs < 2147483648"
proof
  assume "isLengthPrefixed bs"
  then have f: "frameLen bs = int (length bs)" and s: "6 \<le> frameLen bs"
    by (simp_all add: isLengthPrefixed_def)
  from s have "6 \<le> length bs"
    unfolding f by simp
  with f show "declaredLength bs = length bs \<and> 6 \<le> length bs \<and> length bs < 2147483648"
    by (simp add: frameLen_iff)
next
  assume a: "declaredLength bs = length bs \<and> 6 \<le> length bs \<and> length bs < 2147483648"
  then have f: "frameLen bs = int (length bs)"
    by (simp add: frameLen_iff)
  from a have "6 \<le> frameLen bs"
    unfolding f by simp
  with f show "isLengthPrefixed bs"
    by (simp add: isLengthPrefixed_def)
qed

lemma frameLen_lp: "isLengthPrefixed bs \<Longrightarrow> frameLen bs = int (length bs)"
  by (simp add: isLengthPrefixed_def)

subsection \<open>Decode\<close>

lemma resolvePb_eq: "resolvePb e st = (resolved e st, st\<lparr>pb := resolved e st\<rparr>)"
  by (simp add: resolvePb_def resolved_def split: option.splits)

lemma wrapperCalls_relayEmit [simp]: "wrapperCalls (relayEmit e st j) = wrapperCalls st"
  by (simp add: relayEmit_def relaySend_def Let_def)

lemma wrapperCalls_pushRing [simp]: "wrapperCalls (pushRing st x) = wrapperCalls st"
  by (simp add: pushRing_def)

lemma wrapperCalls_pushUnknown [simp]: "wrapperCalls (pushUnknown st x) = wrapperCalls st"
  by (simp add: pushUnknown_def)

lemma wrapperCalls_noteRoom [simp]: "wrapperCalls (noteRoom st d) = wrapperCalls st"
  by (simp add: noteRoom_def split: option.splits)

lemma wrapperCalls_busEmit [simp]: "wrapperCalls (snd (busEmit st t d)) = wrapperCalls st"
  by (simp add: busEmit_def callAll_def Let_def split: option.splits)



lemma decodeLengthPrefixed_unknown:
  "idToType st (msgIdOf bs) = None \<Longrightarrow>
   decodeLengthPrefixed e r bs wsUrl st =
     (Null, relayEmit e
        (pushUnknown st (mkUnknown (msgIdOf bs) (frameLen bs) (now e) wsUrl bs (drop 6 bs)))
        (mkUnknown (msgIdOf bs) (frameLen bs) (now e) wsUrl bs (drop 6 bs)))"
  by (simp add: decodeLengthPrefixed_def Let_def)

lemma decodeLengthPrefixed_skip:
  "idToType st (msgIdOf bs) = Some (ns, tn) \<Longrightarrow> tn \<in> set SKIP_TOPICS \<Longrightarrow>
   decodeLengthPrefixed e r bs wsUrl st = (Null, st)"
  by (simp add: decodeLengthPrefixed_def Let_def)

lemma lastEvents_noteRoom [simp]: "lastEvents (noteRoom st d) = lastEvents st"
  by (simp add: noteRoom_def split: option.splits)

lemma lastEvents_busEmit [simp]: "lastEvents (snd (busEmit st t d)) = lastEvents st"
  by (simp add: busEmit_def callAll_def Let_def split: option.splits)


lemma decodeFrame_lp:
  "resolved e st = Some r \<Longrightarrow> isLengthPrefixed bs \<Longrightarrow>
   decodeFrame e st bs wsUrl = decodeLengthPrefixed e r bs wsUrl (st\<lparr>pb := Some r\<rparr>)"
  by (auto simp: decodeFrame_def resolvePb_eq isLengthPrefixed_def)

lemma decodeFrame_not_ready:
  "resolved e st = None \<Longrightarrow> decodeFrame e st bs wsUrl = (Null, st)"
  by (simp add: decodeFrame_def resolvePb_def resolved_def split: option.splits)

text \<open>
  Under the wrapper scheme a frame whose first accepted envelope names a skipped type
  only adds to the log of envelope decodes.
\<close>

lemma decodeWrapper_skip:
  "firstEnvelope r bs nss = Some (ns, w) \<Longrightarrow> lastSegment (w_topic w) \<in> set SKIP_TOPICS \<Longrightarrow>
   \<exists>calls. decodeWrapper e r bs wsUrl nss st = (Null, st\<lparr>wrapperCalls := calls\<rparr>)"
proof (induction nss arbitrary: st)
  case Nil
  then show ?case by simp
next
  case (Cons a nss)
  have step: "\<exists>calls. decodeWrapper e r bs wsUrl nss (st\<lparr>wrapperCalls := wrapperCalls st @ [a]\<rparr>)
                = (Null, st\<lparr>wrapperCalls := calls\<rparr>)"
    if f: "firstEnvelope r bs nss = Some (ns, w)"
  proof -
    from Cons.IH [OF f Cons.prems(2), of "st\<lparr>wrapperCalls := wrapperCalls st @ [a]\<rparr>"]
    obtain calls where "decodeWrapper e r bs wsUrl nss (st\<lparr>wrapperCalls := wrapperCalls st @ [a]\<rparr>)
                = (Null, st\<lparr>wrapperCalls := wrapperCalls st @ [a]\<rparr>\<lparr>wrapperCalls := calls\<rparr>)"
      by blast
    then have "decodeWrapper e r bs wsUrl nss (st\<lparr>wrapperCalls := wrapperCalls st @ [a]\<rparr>)
                = (Null, st\<lparr>wrapperCalls := calls\<rparr>)"
      by simp
    then show ?thesis by blast
  qed
  show ?case
  proof (cases "r a")
    case None
    with Cons show ?thesis by simp
  next
    case (Some nsObj)
    note o = this
    show ?thesis
    proof (cases "Wrapper nsObj")
      case None
      with Cons o show ?thesis by simp
    next
      case (Some wc)
      note c = this
      show ?thesis
      proof (cases "wdecode wc bs")
        case None
        with Cons.prems o c have f: "firstEnvelope r bs nss = Some (ns, w)" by simp
        from step [OF f] show ?thesis
          using o c None by simp
      next
        case (Some w')
        show ?thesis
        proof (cases "w_topic w' = []")
          case True
          with Cons.prems o c Some have f: "firstEnvelope r bs nss = Some (ns, w)" by simp
          from step [OF f] show ?thesis
            using o c Some True by simp
        next
          case False
          with Cons.prems o c Some have "w' = w" by simp
          with Cons.prems o c Some False
          have "decodeWrapper e r bs wsUrl (a # nss) st
                = (Null, st\<lparr>wrapperCalls := wrapperCalls st @ [a]\<rparr>)"
            by (simp add: wrapperBody_def)
          then show ?thesis by blast
        qed
      qed
    qed
  qed
qed

subsection \<open>Event bus\<close>

lemma map_of_fold_update:
  "map_of (fold (\<lambda>(k, v). AList.update k v) data acc) = map_of acc ++ map_of (rev data)"
proof (induction data arbitrary: acc)
  case Nil
  then show ?case by simp
next
  case (Cons p data)
  obtain k v where p: "p = (k, v)" by (cases p)
  show ?case
    by (simp add: p Cons.IH update_conv' map_add_def fun_eq_iff split: option.splits)
qed

lemma map_of_rev_distinct: "distinct (map fst xs) \<Longrightarrow> map_of (rev xs) = map_of xs"
  by (rule map_of_inject_set [THEN iffD2]) (simp_all add: distinct_rev rev_map [symmetric])

lemma map_of_withTopic:
  "distinct (map fst data) \<Longrightarrow>
   map_of (withTopic topic data) k =
     (case map_of data k of
        Some v \<Rightarrow> Some v
      | None \<Rightarrow> if k = ''topic'' then Some (JStr topic) else None)"
  by (simp add: withTopic_def map_of_fold_update map_of_rev_distinct map_add_def
      split: option.splits)

lemma busEmit_eq:
  "topic \<notin> set objectProtoKeys \<Longrightarrow>
   busEmit st topic data =
     (True, st\<lparr>busLog := busLog st @ map (\<lambda>h. (h, data)) (handlersFor st topic)
                  @ map (\<lambda>h. (h, withTopic topic data)) (handlersFor st ''*'')\<rparr>)"
  by (simp add: busEmit_def handlersFor_def callAll_def Let_def split: option.splits)

subsection \<open>Action sender\<close>












subsection \<open>Invariants of the reachable states\<close>

lemma tapInv_init: "tapInv init_state"
  by (simp add: tapInv_def init_state_def)

lemma tapInv_updates [simp]:
  "tapInv (st\<lparr>wrapperCalls := c\<rparr>) = tapInv st"
  "tapInv (st\<lparr>pb := p\<rparr>) = tapInv st"
  "tapInv (st\<lparr>polling := b\<rparr>) = tapInv st"
  "tapInv (st\<lparr>handlers := h\<rparr>) = tapInv st"
  "tapInv (st\<lparr>msgIdMaps := m\<rparr>) = tapInv st"
  "tapInv (st\<lparr>wsSent := s\<rparr>) = tapInv st"
  "tapInv (st\<lparr>busLog := l\<rparr>) = tapInv st"
  "tapInv (st\<lparr>lastRoomId := x\<rparr>) = tapInv st"
  "tapInv (st\<lparr>relayOk := k\<rparr>) = tapInv st"
  "tapInv (st\<lparr>retries := n\<rparr>) = tapInv st"
  "tapInv (st\<lparr>sockets := so\<rparr>) = tapInv st"
  "tapInv (st\<lparr>patchedSockets := ps\<rparr>) = tapInv st"
  by (simp_all add: tapInv_def)

lemma tapInv_relayEmit: "tapInv st \<Longrightarrow> tapInv (relayEmit e st j)"
  by (auto simp: tapInv_def relayEmit_def relaySend_def Let_def)

lemma tapInv_pushRing: "tapInv st \<Longrightarrow> tapInv (pushRing st x)"
  by (simp add: tapInv_def pushRing_def ringPush_length)

lemma tapInv_pushUnknown: "tapInv st \<Longrightarrow> tapInv (pushUnknown st x)"
  by (simp add: tapInv_def pushUnknown_def ringPush_length)

lemma tapInv_noteRoom: "tapInv st \<Longrightarrow> tapInv (noteRoom st d)"
  by (simp add: noteRoom_def split: option.splits)

lemma tapInv_busEmit: "tapInv st \<Longrightarrow> tapInv (snd (busEmit st t d))"
  by (simp add: busEmit_def callAll_def Let_def split: option.splits)

lemma tapInv_decodeLengthPrefixed:
  "tapInv st \<Longrightarrow> tapInv (snd (decodeLengthPrefixed e r bs wsUrl st))"
  by (simp add: decodeLengthPrefixed_def Let_def case_prod_beta bool.case_eq_if
      tapInv_relayEmit tapInv_pushRing tapInv_pushUnknown tapInv_noteRoom tapInv_busEmit
      split: option.split)

lemma tapInv_wrapperBody:
  "tapInv st \<Longrightarrow> tapInv (snd (wrapperBody e r wsUrl ns nsObj w st))"
  by (simp add: wrapperBody_def Let_def case_prod_beta bool.case_eq_if
      tapInv_relayEmit tapInv_pushRing tapInv_noteRoom tapInv_busEmit
      split: option.split)

lemma tapInv_decodeWrapper:
  "tapInv st \<Longrightarrow> tapInv (snd (decodeWrapper e r bs wsUrl nss st))"
  by (induction nss arbitrary: st) (simp_all add: tapInv_wrapperBody split: option.split)

lemma tapInv_decodeFrame: "tapInv st \<Longrightarrow> tapInv (snd (decodeFrame e st bs wsUrl))"
  by (simp add: decodeFrame_def resolvePb_eq tapInv_decodeLengthPrefixed tapInv_decodeWrapper
      split: option.split)

lemma tapInv_relayOnOpen: "tapInv st \<Longrightarrow> tapInv (relayOnOpen e st)"
  using flushLoop_length [of e "queue st" "relaySends st" "relaySent st"]
  by (auto simp: tapInv_def relayOnOpen_def Let_def split: prod.splits)

lemma tapInv_relayOnClose: "tapInv st \<Longrightarrow> tapInv (fst (relayOnClose st))"
  by (simp add: relayOnClose_def Let_def)

lemma tapInv_busOn: "tapInv st \<Longrightarrow> tapInv (snd (busOn st t h))"
  by (simp add: busOn_def)

lemma tapInv_busOff: "tapInv st \<Longrightarrow> tapInv (snd (busOff st t h))"
  by (simp add: busOff_def split: option.split)

lemma tapInv_patchSocket: "tapInv st \<Longrightarrow> tapInv (patchSocket st ws url)"
  by (simp add: patchSocket_def)

lemma tapInv_socketOnClose: "tapInv st \<Longrightarrow> tapInv (socketOnClose st ws url)"
  by (simp add: socketOnClose_def)

lemma tapInv_attachToSocket: "tapInv st \<Longrightarrow> tapInv (snd (attachToSocket st ws ok urlProp))"
  by (simp add: attachToSocket_def Let_def tapInv_patchSocket)

lemma tapInv_sendAction: "tapInv st \<Longrightarrow> tapInv (snd (sendAction e st a b c))"
  by (simp add: sendAction_def split: option.split completion.split)

text \<open>\<open>buildReverseIdMap\<close> never writes the key 0.\<close>

lemma addEntries_zero: "addEntries ns es m 0 = m 0"
proof (induction ns es m rule: addEntries.induct)
  case (1 ns m)
  show ?case by simp
next
  case (2 ns name i rest m)
  show ?case
  proof (cases "i = 0")
    case True
    with 2 show ?thesis by simp
  next
    case False
    then have "addEntries ns ((name, i) # rest) m 0 = addEntries ns rest (m(i := Some (ns, name))) 0"
      by simp
    also have "\<dots> = (m(i := Some (ns, name))) 0"
      using False by (rule 2)
    also have "\<dots> = m 0"
      using False by simp
    finally show ?thesis .
  qed
qed

lemma reverseLoop_zero: "reverseLoop r nss m 0 = m 0"
  by (induction nss arbitrary: m) (simp_all add: addEntries_zero split: option.split)

lemma tapInv_buildIdMap: "tapInv st \<Longrightarrow> tapInv (buildIdMap st ns)"
  by (simp add: buildIdMap_def split: option.split)

lemma tapInv_fold_buildIdMap: "tapInv st \<Longrightarrow> tapInv (fold (\<lambda>ns s. buildIdMap s ns) nss st)"
  by (induction nss arbitrary: st) (simp_all add: tapInv_buildIdMap)

lemma tapInv_buildReverseIdMap: "tapInv st \<Longrightarrow> tapInv (buildReverseIdMap r st)"
  by (simp add: tapInv_def buildReverseIdMap_def reverseLoop_zero)

lemma tapInv_pbPollTick: "tapInv st \<Longrightarrow> tapInv (pbPollTick e st)"
  by (simp add: pbPollTick_def resolvePb_eq Let_def tapInv_busEmit tapInv_buildReverseIdMap
      tapInv_fold_buildIdMap split: option.split)

lemma reachable_tapInv: "reachable st \<Longrightarrow> tapInv st"
proof (induction rule: reachable.induct)
  case r_init
  show ?case by (rule tapInv_init)
next
  case (r_socket st ws url)
  then show ?case by (simp add: proxiedWebSocket_def tapInv_patchSocket)
qed (simp_all add: tapInv_pbPollTick tapInv_decodeFrame tapInv_relayOnOpen tapInv_relayOnClose
      tapInv_busOn tapInv_busOff tapInv_attachToSocket tapInv_socketOnClose tapInv_sendAction)

subsection \<open>The concrete inputs\<close>

lemma buildIdMap_frame: "\<exists>m. buildIdMap st ns = st\<lparr>msgIdMaps := m\<rparr>"
proof (cases "buildIdMap st ns = st")
  case True
  then have "buildIdMap st ns = st\<lparr>msgIdMaps := msgIdMaps st\<rparr>" by simp
  then show ?thesis by blast
next
  case False
  then obtain m where "buildIdMap st ns = st\<lparr>msgIdMaps := (msgIdMaps st)(ns := Some m)\<rparr>"
    by (auto simp: buildIdMap_def split: option.splits)
  then show ?thesis by blast
qed

lemma fold_buildIdMap_frame: "\<exists>m. fold (\<lambda>ns s. buildIdMap s ns) nss st = st\<lparr>msgIdMaps := m\<rparr>"
proof (induction nss arbitrary: st)
  case Nil
  have "fold (\<lambda>ns s. buildIdMap s ns) [] st = st\<lparr>msgIdMaps := msgIdMaps st\<rparr>" by simp
  then show ?case by blast
next
  case (Cons a nss)
  obtain m where m: "buildIdMap st a = st\<lparr>msgIdMaps := m\<rparr>"
    using buildIdMap_frame by blast
  obtain m' where "fold (\<lambda>ns s. buildIdMap s ns) nss (st\<lparr>msgIdMaps := m\<rparr>)
      = st\<lparr>msgIdMaps := m\<rparr>\<lparr>msgIdMaps := m'\<rparr>"
    using Cons.IH by blast
  then have "fold (\<lambda>ns s. buildIdMap s ns) (a # nss) st = st\<lparr>msgIdMaps := m'\<rparr>"
    by (simp add: m)
  then show ?case by blast
qed

lemma pbPollTick_first:
  assumes "polling st" and "pb st = None" and "windowPb e = Some r"
  shows "\<exists>m. pbPollTick e st =
     st\<lparr>pb := Some r, polling := False, msgIdMaps := m,
        idToType := reverseLoop r priorityOrder (idToType st),
        busLog := busLog st
          @ map (\<lambda>h. (h, [(''namespaces'', JArr (map JStr (pbNamespaces e)))]))
              (handlersFor st ''__proto_ready'')
          @ map (\<lambda>h. (h, withTopic ''__proto_ready''
                          [(''namespaces'', JArr (map JStr (pbNamespaces e)))]))
              (handlersFor st ''*'')\<rparr>"
proof -
  obtain m where m: "fold (\<lambda>ns s. buildIdMap s ns) GAME_NAMESPACES (st\<lparr>pb := Some r, polling := False\<rparr>)
      = st\<lparr>pb := Some r, polling := False\<rparr>\<lparr>msgIdMaps := m\<rparr>"
    using fold_buildIdMap_frame by blast
  have t: "''__proto_ready'' \<notin> set objectProtoKeys"
    by (simp add: objectProtoKeys_def)
  have "pbPollTick e st =
     st\<lparr>pb := Some r, polling := False, msgIdMaps := m,
        idToType := reverseLoop r priorityOrder (idToType st),
        busLog := busLog st
          @ map (\<lambda>h. (h, [(''namespaces'', JArr (map JStr (pbNamespaces e)))]))
              (handlersFor st ''__proto_ready'')
          @ map (\<lambda>h. (h, withTopic ''__proto_ready''
                          [(''namespaces'', JArr (map JStr (pbNamespaces e)))]))
              (handlersFor st ''*'')\<rparr>"
    using assms
    by (simp add: pbPollTick_def resolvePb_def Let_def m buildReverseIdMap_def busEmit_eq [OF t]
        handlersFor_def)
  then show ?thesis by blast
qed

lemma pb_buildIdMap [simp]: "pb (buildIdMap st ns) = pb st"
  by (simp add: buildIdMap_def split: option.split)

lemma msgIdMaps_buildIdMap:
  "pb st = Some r \<Longrightarrow>
   msgIdMaps (buildIdMap st ns) =
     (case msgIdMaps st ns of
        Some m \<Rightarrow> msgIdMaps st
      | None \<Rightarrow>
         (case r ns of
            None \<Rightarrow> msgIdMaps st
          | Some nsObj \<Rightarrow>
             (case MessageId nsObj of
                None \<Rightarrow> msgIdMaps st
              | Some entries \<Rightarrow>
                 (msgIdMaps st)(ns := Some (fold (\<lambda>(name, i) m. AList.update i name m) entries [])))))"
  by (simp add: buildIdMap_def split: option.split)

lemma pbPollTick_maps:
  assumes "polling st" and "pb st = None" and "windowPb e = Some r"
  shows "msgIdMaps (pbPollTick e st) =
     msgIdMaps (fold (\<lambda>ns s. buildIdMap s ns) GAME_NAMESPACES (st\<lparr>pb := Some r, polling := False\<rparr>))"
proof -
  have t: "''__proto_ready'' \<notin> set objectProtoKeys"
    by (simp add: objectProtoKeys_def)
  show ?thesis
    using assms
    by (simp add: pbPollTick_def resolvePb_def Let_def buildReverseIdMap_def busEmit_eq [OF t])
qed

lemma subscribed_handlers:
  "handlers subscribed ''*'' = Some [3]"
  "handlers subscribed ''Foo'' = Some [1]"
  "handlers subscribed ''commonProto.Foo'' = Some [2]"
  "handlers subscribed ''Ping'' = None"
  by (simp_all add: subscribed_def busOn_def objectProtoKeys_def init_state_def)

lemma subscribed_fields:
  "polling subscribed" "pb subscribed = None" "idToType subscribed = (\<lambda>_. None)"
  "lastEvents subscribed = []" "unknownFrames subscribed = []" "queue subscribed = []"
  "relayOk subscribed = False" "relaySent subscribed = []" "wrapperCalls subscribed = []"
  "sockets subscribed = []" "wsSent subscribed = []" "busLog subscribed = []"
  "relaySends subscribed = 0" "patchedSockets subscribed = []"
  by (simp_all add: subscribed_def busOn_def objectProtoKeys_def init_state_def)

lemma ready_state_eq:
  "\<exists>m. ready_state = subscribed\<lparr>pb := Some demo_reg, polling := False, msgIdMaps := m,
        idToType := reverseLoop demo_reg priorityOrder (\<lambda>_. None),
        busLog := [(3, [(''topic'', JStr ''__proto_ready''),
                        (''namespaces'', JArr [JStr ''holdem'', JStr ''commonProto''])])]\<rparr>"
proof -
  have w: "windowPb demo_env = Some demo_reg"
    by (simp add: demo_env_def)
  from pbPollTick_first [OF subscribed_fields(1,2) w]
  show ?thesis
    by (simp add: ready_state_def subscribed_fields handlersFor_def subscribed_handlers
        demo_env_def quiet_env_def withTopic_def)
      (simp add: subscribed_def busOn_def objectProtoKeys_def init_state_def)
qed

lemma demo_reg_holdem:
  "demo_reg ''holdem'' = Some \<lparr> MessageId = Some [(''Idle'', 0), (''ActionReq'', 5)],
              Wrapper = Some \<lparr>
                wdecode = (\<lambda>bs. if bs ! 0 = 11 then Some \<lparr>w_topic = ''holdem.Ping'', w_body = []\<rparr>
                               else Some \<lparr>w_topic = ''holdem.Foo'', w_body = [1]\<rparr>),
                wencode = (\<lambda>w. Some (10 # w_body w)) \<rparr>,
              msgTypes = (\<lambda>t. if t = ''ActionReq'' then
                   Some \<lparr> decode = (\<lambda>bs. None), encode = (\<lambda>j. Some [8, 7, 16, 5]) \<rparr>
                 else None) \<rparr>"
  by (simp add: demo_reg_def)

lemma demo_reg_common:
  "demo_reg ''commonProto'' = Some \<lparr> MessageId = Some [(''Foo'', 42), (''Ping'', 7)],
              Wrapper = None,
              msgTypes = (\<lambda>t. if t = ''Foo'' then
                   Some \<lparr> decode = (\<lambda>bs. Some (JObj [(''roomId'', JNum 7)])),
                          encode = (\<lambda>j. None) \<rparr>
                 else None) \<rparr>"
  by (simp add: demo_reg_def)

lemma demo_ids:
  "reverseLoop demo_reg priorityOrder (\<lambda>_. None) 0 = None"
  "reverseLoop demo_reg priorityOrder (\<lambda>_. None) 42 = Some (''commonProto'', ''Foo'')"
  "reverseLoop demo_reg priorityOrder (\<lambda>_. None) 7 = Some (''commonProto'', ''Ping'')"
  "reverseLoop demo_reg priorityOrder (\<lambda>_. None) 9999 = None"
  by (simp_all add: priorityOrder_def demo_reg_def)

lemma ready_fields:
  "pb ready_state = Some demo_reg"
  "handlers ready_state = handlers subscribed"
  "lastEvents ready_state = []"
  "unknownFrames ready_state = []"
  "queue ready_state = []"
  "relayOk ready_state = False"
  "relaySent ready_state = []"
  "relaySends ready_state = 0"
  "wrapperCalls ready_state = []"
  "sockets ready_state = []"
  "patchedSockets ready_state = []"
  "wsSent ready_state = []"
  "busLog ready_state = [(3, [(''topic'', JStr ''__proto_ready''),
      (''namespaces'', JArr [JStr ''holdem'', JStr ''commonProto''])])]"
  "idToType ready_state = reverseLoop demo_reg priorityOrder (\<lambda>_. None)"
proof -
  obtain m where eq: "ready_state = subscribed\<lparr>pb := Some demo_reg, polling := False,
        msgIdMaps := m, idToType := reverseLoop demo_reg priorityOrder (\<lambda>_. None),
        busLog := [(3, [(''topic'', JStr ''__proto_ready''),
                        (''namespaces'', JArr [JStr ''holdem'', JStr ''commonProto''])])]\<rparr>"
    using ready_state_eq by blast
  show "pb ready_state = Some demo_reg"
    "handlers ready_state = handlers subscribed"
    "lastEvents ready_state = []"
    "unknownFrames ready_state = []"
    "queue ready_state = []"
    "relayOk ready_state = False"
    "relaySent ready_state = []"
    "relaySends ready_state = 0"
    "wrapperCalls ready_state = []"
    "sockets ready_state = []"
    "patchedSockets ready_state = []"
    "wsSent ready_state = []"
    "busLog ready_state = [(3, [(''topic'', JStr ''__proto_ready''),
      (''namespaces'', JArr [JStr ''holdem'', JStr ''commonProto''])])]"
    "idToType ready_state = reverseLoop demo_reg priorityOrder (\<lambda>_. None)"
    by (simp_all add: eq subscribed_fields)
qed

lemma ready_maps:
  "msgIdMaps ready_state ''commonProto'' = Some [(42, ''Foo''), (7, ''Ping'')]"
  "msgIdMaps ready_state ''holdem'' = Some [(0, ''Idle''), (5, ''ActionReq'')]"
proof -
  have w: "windowPb demo_env = Some demo_reg"
    by (simp add: demo_env_def)
  have m: "msgIdMaps ready_state =
     msgIdMaps (fold (\<lambda>ns s. buildIdMap s ns) GAME_NAMESPACES
        (subscribed\<lparr>pb := Some demo_reg, polling := False\<rparr>))"
    unfolding ready_state_def by (rule pbPollTick_maps [OF subscribed_fields(1,2) w])
  have s: "msgIdMaps subscribed = (\<lambda>_. None)"
    by (simp add: subscribed_def busOn_def objectProtoKeys_def init_state_def)
  show "msgIdMaps ready_state ''commonProto'' = Some [(42, ''Foo''), (7, ''Ping'')]"
    "msgIdMaps ready_state ''holdem'' = Some [(0, ''Idle''), (5, ''ActionReq'')]"
    unfolding m by (simp_all add: GAME_NAMESPACES_def msgIdMaps_buildIdMap s demo_reg_def)
qed

lemma ready_pb: "ready_state\<lparr>pb := Some demo_reg\<rparr> = ready_state"
proof -
  have "ready_state\<lparr>pb := pb ready_state\<rparr> = ready_state"
    by simp
  then show ?thesis
    by (simp only: ready_fields(1))
qed

lemma ready_handlers:
  "handlersFor ready_state ''Foo'' = [1]" "handlersFor ready_state ''*'' = [3]"
  "handlersFor ready_state ''commonProto.Foo'' = [2]"
  by (simp_all add: handlersFor_def ready_fields subscribed_handlers)

lemma reachable_subscribed: "reachable subscribed"
  unfolding subscribed_def
  by (rule reachable.r_on, rule reachable.r_on, rule reachable.r_on, rule reachable.r_init)

lemma reachable_ready: "reachable ready_state"
  unfolding ready_state_def by (rule reachable.r_poll, rule reachable_subscribed)

text \<open>The frames, and what the decoder makes of them in \<open>ready_state\<close>.\<close>

lemma frame_facts:
  "length known_frame = 10" "declaredLength known_frame = 10" "msgIdOf known_frame = 42"
  "length unknown_frame = 10" "declaredLength unknown_frame = 10" "msgIdOf unknown_frame = 9999"
  "length zero_frame = 6" "declaredLength zero_frame = 6" "msgIdOf zero_frame = 0"
  "length ping_frame = 6" "declaredLength ping_frame = 6" "msgIdOf ping_frame = 7"
  "length huge_frame = 2147483648" "declaredLength huge_frame = 2147483648"
  "frameLen huge_frame = - 2147483648"
  "length ping_envelope = 6" "frameLen ping_envelope = 184832105"
  "length foo_envelope = 8" "frameLen foo_envelope = 167986799"
  by (simp_all add: known_frame_def unknown_frame_def zero_frame_def ping_frame_def
      huge_frame_def ping_envelope_def foo_envelope_def declaredLength_def msgIdOf_def
      frameLen_def be32_def)

lemma lp_facts:
  "isLengthPrefixed known_frame" "isLengthPrefixed unknown_frame" "isLengthPrefixed zero_frame"
  "isLengthPrefixed ping_frame"
  by (simp_all add: isLengthPrefixed_iff frame_facts)

lemma not_lp_facts:
  "\<not> isLengthPrefixed huge_frame" "\<not> isLengthPrefixed ping_envelope"
  "\<not> isLengthPrefixed foo_envelope"
  by (simp_all add: isLengthPrefixed_def frame_facts)

lemma resolved_facts:
  "resolved demo_env ready_state = Some demo_reg"
  "resolved quiet_env init_state = None"
  by (simp_all add: resolved_def ready_fields quiet_env_def init_state_def)

lemma demo_url_trim: "trimUrl demo_url = ''wss://game.example/ws''"
  by (simp add: trimUrl_def demo_url_def lineTerminator_def)

lemma last_segments:
  "lastSegment ''holdem.Foo'' = ''Foo''" "lastSegment ''holdem.Ping'' = ''Ping''"
  by (simp_all add: lastSegment_def)

lemma unknown_entry_eq:
  "unknownEntry demo_env unknown_frame demo_url =
     [(''type'', JStr ''unknown_frame''), (''msgId'', JNum 9999), (''len'', JNum 10),
      (''ts'', JNum 1700000000000), (''wsUrl'', JStr ''wss://game.example/ws''),
      (''hex'', JStr ''00 00 00 0a 27 0f 01 02 03 04''), (''bodyHex'', JStr ''01 02 03 04''),
      (''bodyLen'', JNum 4)]"
  by (simp add: unknownEntry_def mkUnknown_def frame_facts demo_url_trim demo_env_def quiet_env_def)
     (simp add: unknown_frame_def hexOf_def hex2_def hexDigit_def)

lemma foo_event_keys: "distinct (map fst foo_event)"
  by (simp add: foo_event_def)

lemma foo_topics:
  "''Foo'' \<notin> set objectProtoKeys" "''commonProto.Foo'' \<notin> set objectProtoKeys"
  by (simp_all add: objectProtoKeys_def)

lemma known_frame_lp:
  "decodeLengthPrefixed demo_env demo_reg known_frame demo_url (ready_state\<lparr>pb := Some demo_reg\<rparr>) =
     (Event foo_event,
      ready_state\<lparr>lastRoomId := Some (JNum 7), queue := [foo_event], lastEvents := [foo_event],
        busLog := busLog ready_state @ [(1, foo_event), (3, withTopic ''Foo'' foo_event)]\<rparr>)"
proof -
  have n: "now demo_env = 1700000000000"
    by (simp add: demo_env_def quiet_env_def)
  have b: "drop 6 known_frame = [1, 2, 3, 4]"
    by (simp add: known_frame_def)
  show ?thesis
    unfolding ready_pb
    by (simp add: decodeLengthPrefixed_def frame_facts ready_fields demo_ids SKIP_TOPICS_def
        demo_reg_common decodeWith_def noteRoom_def mkEvent_def demo_url_trim n relayEmit_def
        pushRing_def ringPush_def RING_SIZE_def busEmit_def objectProtoKeys_def callAll_def
        subscribed_handlers foo_event_def Let_def)
qed

lemma foo_envelope_event:
  "decodeFrame demo_env ready_state foo_envelope demo_url =
     (Event foo_event,
      ready_state\<lparr>lastRoomId := Some (JNum 7), queue := [foo_event], lastEvents := [foo_event],
        wrapperCalls := [''holdem''],
        busLog := busLog ready_state @ [(1, foo_event), (3, withTopic ''Foo'' foo_event),
                   (2, foo_event), (3, withTopic ''commonProto.Foo'' foo_event)]\<rparr>)"
proof -
  have n: "now demo_env = 1700000000000"
    by (simp add: demo_env_def quiet_env_def)
  have f0: "foo_envelope ! 0 = 10"
    by (simp add: foo_envelope_def)
  have d: "decodeFrame demo_env ready_state foo_envelope demo_url
       = decodeWrapper demo_env demo_reg foo_envelope demo_url GAME_NAMESPACES ready_state"
    using not_lp_facts(3)
    by (simp add: decodeFrame_def resolvePb_eq resolved_facts frame_facts isLengthPrefixed_def
        ready_pb)
  have w: "decodeWrapper demo_env demo_reg foo_envelope demo_url GAME_NAMESPACES ready_state
       = wrapperBody demo_env demo_reg demo_url ''holdem'' (the (demo_reg ''holdem''))
           \<lparr>w_topic = ''holdem.Foo'', w_body = [1]\<rparr> (ready_state\<lparr>wrapperCalls := [''holdem'']\<rparr>)"
    by (simp add: GAME_NAMESPACES_def demo_reg_holdem f0 ready_fields)
  show ?thesis
    unfolding d w
    by (simp add: wrapperBody_def last_segments SKIP_TOPICS_def demo_reg_holdem demo_reg_common
        GAME_NAMESPACES_def decodeWith_def noteRoom_def lookupMsgId_def ready_maps mkEvent_def
        demo_url_trim n relayEmit_def pushRing_def ringPush_def RING_SIZE_def busEmit_def
        objectProtoKeys_def callAll_def subscribed_handlers ready_fields foo_event_def Let_def)
qed


lemma ping_resolved:
  "resolvedTypeName demo_env ready_state ping_frame = Some ''Ping''"
  "resolvedTypeName demo_env ready_state ping_envelope = Some ''Ping''"
  "''Ping'' \<in> set SKIP_TOPICS"
proof -
  have p0: "ping_envelope ! 0 = 11"
    by (simp add: ping_envelope_def)
  show "resolvedTypeName demo_env ready_state ping_frame = Some ''Ping''"
    by (simp add: resolvedTypeName_def resolved_facts frame_facts lp_facts ready_fields demo_ids)
  show "resolvedTypeName demo_env ready_state ping_envelope = Some ''Ping''"
    by (simp add: resolvedTypeName_def resolved_facts frame_facts not_lp_facts
        GAME_NAMESPACES_def demo_reg_holdem p0 last_segments)
  show "''Ping'' \<in> set SKIP_TOPICS"
    by (simp add: SKIP_TOPICS_def)
qed











lemma huge_id: "msgIdOf huge_frame = 0"
  by (simp add: msgIdOf_def huge_frame_def)

lemma huge_frame_event:
  "fst (decodeFrame demo_env ready_state huge_frame demo_url) = Event foo_event"
  "unknownFrames (snd (decodeFrame demo_env ready_state huge_frame demo_url)) = []"
proof -
  have n: "now demo_env = 1700000000000"
    by (simp add: demo_env_def quiet_env_def)
  have h0: "huge_frame ! 0 = 128"
    by (simp add: huge_frame_def)
  have d: "decodeFrame demo_env ready_state huge_frame demo_url
       = decodeWrapper demo_env demo_reg huge_frame demo_url GAME_NAMESPACES ready_state"
    using not_lp_facts(1)
    by (simp add: decodeFrame_def resolvePb_eq resolved_facts frame_facts isLengthPrefixed_def
        ready_pb)
  have w: "decodeWrapper demo_env demo_reg huge_frame demo_url GAME_NAMESPACES ready_state
       = wrapperBody demo_env demo_reg demo_url ''holdem'' (the (demo_reg ''holdem''))
           \<lparr>w_topic = ''holdem.Foo'', w_body = [1]\<rparr> (ready_state\<lparr>wrapperCalls := [''holdem'']\<rparr>)"
    by (simp add: GAME_NAMESPACES_def demo_reg_holdem h0 ready_fields)
  have b: "wrapperBody demo_env demo_reg demo_url ''holdem'' (the (demo_reg ''holdem''))
           \<lparr>w_topic = ''holdem.Foo'', w_body = [1]\<rparr> (ready_state\<lparr>wrapperCalls := [''holdem'']\<rparr>)
       = (Event foo_event,
          ready_state\<lparr>lastRoomId := Some (JNum 7), queue := [foo_event], lastEvents := [foo_event],
            wrapperCalls := [''holdem''],
            busLog := busLog ready_state @ [(1, foo_event), (3, withTopic ''Foo'' foo_event),
                   (2, foo_event), (3, withTopic ''commonProto.Foo'' foo_event)]\<rparr>)"
    by (simp add: wrapperBody_def last_segments SKIP_TOPICS_def demo_reg_holdem demo_reg_common
        GAME_NAMESPACES_def decodeWith_def noteRoom_def lookupMsgId_def ready_maps mkEvent_def
        demo_url_trim n relayEmit_def pushRing_def ringPush_def RING_SIZE_def busEmit_def
        objectProtoKeys_def callAll_def subscribed_handlers ready_fields foo_event_def Let_def)
  show "fst (decodeFrame demo_env ready_state huge_frame demo_url) = Event foo_event"
    "unknownFrames (snd (decodeFrame demo_env ready_state huge_frame demo_url)) = []"
    unfolding d w b by (simp_all add: ready_fields)
qed

section \<open>The claims\<close>




text \<open>
  Claim C2, as amended. When the schema registry is resolved, a frame that passes the
  length test of the decoder and whose message id is not in the reverse id map yields no
  event: \<open>decodeFrame\<close> returns \<^verbatim>\<open>null\<close>, the ring of decoded events and the bus are left
  alone. It yields one unknown-frame record, whose \<open>bodyLen\<close> is the length of the frame
  less 6, whose \<open>msgId\<close> and \<open>len\<close> are those of the header; the record is pushed onto the
  ring of unknown frames and handed to \<open>relayEmit\<close>, which sends it when the relay is open
  and the send does not raise, and queues it otherwise while the queue has room.
\<close>

theorem unknown_id_captured:
  assumes r: "resolved e st = Some r" and lp: "isLengthPrefixed bs"
    and u: "idToType st (msgIdOf bs) = None"
  shows "decodeFrame e st bs wsUrl =
           (Null, relayEmit e (pushUnknown (st\<lparr>pb := Some r\<rparr>) (unknownEntry e bs wsUrl))
                    (unknownEntry e bs wsUrl)) \<and>
         lastEvents (snd (decodeFrame e st bs wsUrl)) = lastEvents st \<and>
         busLog (snd (decodeFrame e st bs wsUrl)) = busLog st \<and>
         unknownFrames (snd (decodeFrame e st bs wsUrl))
           = ringPush UNKNOWN_RING (unknownFrames st) (unknownEntry e bs wsUrl) \<and>
         map_of (unknownEntry e bs wsUrl) ''bodyLen'' = Some (JNum (int (length bs - 6))) \<and>
         map_of (unknownEntry e bs wsUrl) ''msgId'' = Some (JNum (msgIdOf bs)) \<and>
         map_of (unknownEntry e bs wsUrl) ''len'' = Some (JNum (int (length bs))) \<and>
         (relayOk st \<and> \<not> relayThrows e (relaySends st) (unknownEntry e bs wsUrl) \<longrightarrow>
            relaySent (snd (decodeFrame e st bs wsUrl)) = relaySent st @ [unknownEntry e bs wsUrl]) \<and>
         ((\<not> relayOk st \<or> relayThrows e (relaySends st) (unknownEntry e bs wsUrl))
            \<and> length (queue st) < 500 \<longrightarrow>
            queue (snd (decodeFrame e st bs wsUrl)) = queue st @ [unknownEntry e bs wsUrl])"
proof -
  have d: "decodeFrame e st bs wsUrl =
           (Null, relayEmit e (pushUnknown (st\<lparr>pb := Some r\<rparr>) (unknownEntry e bs wsUrl))
                    (unknownEntry e bs wsUrl))"
    using r lp u
    by (simp add: decodeFrame_lp decodeLengthPrefixed_unknown unknownEntry_def frameLen_lp)
  have s: "relaySent (snd (decodeFrame e st bs wsUrl)) = relaySent st @ [unknownEntry e bs wsUrl]"
    if "relayOk st \<and> \<not> relayThrows e (relaySends st) (unknownEntry e bs wsUrl)"
    using that
      relayEmit_sent [of "pushUnknown (st\<lparr>pb := Some r\<rparr>) (unknownEntry e bs wsUrl)" e
        "unknownEntry e bs wsUrl"]
    by (simp add: d pushUnknown_def)
  have q: "queue (snd (decodeFrame e st bs wsUrl)) = queue st @ [unknownEntry e bs wsUrl]"
    if "(\<not> relayOk st \<or> relayThrows e (relaySends st) (unknownEntry e bs wsUrl))
            \<and> length (queue st) < 500"
    using that
      relayEmit_queued [of "pushUnknown (st\<lparr>pb := Some r\<rparr>) (unknownEntry e bs wsUrl)" e
        "unknownEntry e bs wsUrl"]
    by (simp add: d pushUnknown_def)
  have f: "map_of (unknownEntry e bs wsUrl) ''bodyLen'' = Some (JNum (int (length bs - 6)))"
    "map_of (unknownEntry e bs wsUrl) ''msgId'' = Some (JNum (msgIdOf bs))"
    "map_of (unknownEntry e bs wsUrl) ''len'' = Some (JNum (int (length bs)))"
    by (simp_all add: unknownEntry_def mkUnknown_def)
  show ?thesis
    using s q f by (simp add: d)
qed

theorem unknown_id_captured_witness:
  "resolved demo_env ready_state = Some demo_reg \<and> isLengthPrefixed unknown_frame \<and>
   idToType ready_state (msgIdOf unknown_frame) = None \<and>
   fst (decodeFrame demo_env ready_state unknown_frame demo_url) = Null \<and>
   lastEvents (snd (decodeFrame demo_env ready_state unknown_frame demo_url)) = [] \<and>
   unknownFrames (snd (decodeFrame demo_env ready_state unknown_frame demo_url))
     = [unknownEntry demo_env unknown_frame demo_url] \<and>
   queue (snd (decodeFrame demo_env ready_state unknown_frame demo_url))
     = [unknownEntry demo_env unknown_frame demo_url] \<and>
   map_of (unknownEntry demo_env unknown_frame demo_url) ''bodyLen'' = Some (JNum 4) \<and>
   unknownEntry demo_env unknown_frame demo_url =
     [(''type'', JStr ''unknown_frame''), (''msgId'', JNum 9999), (''len'', JNum 10),
      (''ts'', JNum 1700000000000), (''wsUrl'', JStr ''wss://game.example/ws''),
      (''hex'', JStr ''00 00 00 0a 27 0f 01 02 03 04''), (''bodyHex'', JStr ''01 02 03 04''),
      (''bodyLen'', JNum 4)]"
proof -
  have h: "resolved demo_env ready_state = Some demo_reg" "isLengthPrefixed unknown_frame"
    "idToType ready_state (msgIdOf unknown_frame) = None"
    by (simp_all add: resolved_facts lp_facts frame_facts ready_fields demo_ids)
  show ?thesis
    using h unknown_id_captured [OF h, of demo_url]
    by (simp add: ready_fields ringPush_def UNKNOWN_RING_def frame_facts unknown_entry_eq
        relayEmit_def pushUnknown_def Let_def)
qed

text \<open>
  Where claim C2 fails as it is stated: with no registry available, a length-prefixed
  frame with an unknown id is dropped and no record of it is made.
\<close>

theorem unknown_id_captured_counterexample:
  "isLengthPrefixed unknown_frame \<and> idToType init_state (msgIdOf unknown_frame) = None \<and>
   decodeFrame quiet_env init_state unknown_frame demo_url = (Null, init_state) \<and>
   unknownFrames init_state = [] \<and> queue init_state = [] \<and> relaySent init_state = []"
  by (simp add: lp_facts decodeFrame_not_ready resolved_facts) (simp add: init_state_def)

text \<open>
  Claim C3, where the code departs from it. On the open event the retry counter is reset
  and the queue is flushed from its head, but the payload whose send raises has been
  shifted off the queue before the send: with three payloads queued and the second send
  raising, the first payload is sent, the third stays queued, and the second is neither
  sent nor queued.
\<close>

theorem flush_drops_failed_item:
  "relayOnOpen flush_env flush_state =
     flush_state\<lparr>relayOk := True, retries := 0, queue := [[(''n'', JNum 3)]],
       relaySends := 2, relaySent := [[(''n'', JNum 1)]]\<rparr>"
  by (simp add: relayOnOpen_def flush_env_def flush_state_def quiet_env_def init_state_def Let_def)

text \<open>
  Claim C4, as amended. For a topic that is not a name inherited from \<^verbatim>\<open>Object.prototype\<close>
  and an event with distinct property names, \<open>busEmit\<close> calls every handler of the exact
  topic with the event, in registration order, and then every wildcard handler with a copy
  of the event that has a \<open>topic\<close> property: the event's own \<open>topic\<close> when it has one, the
  publish topic otherwise. Every other property of the copy is that of the event.
\<close>

theorem bus_publish:
  "topic \<notin> set objectProtoKeys \<and> distinct (map fst data) \<longrightarrow>
     busEmit st topic data =
       (True, st\<lparr>busLog := busLog st @ map (\<lambda>h. (h, data)) (handlersFor st topic)
                    @ map (\<lambda>h. (h, withTopic topic data)) (handlersFor st ''*'')\<rparr>) \<and>
     map_of (withTopic topic data) ''topic'' =
       (case map_of data ''topic'' of Some v \<Rightarrow> Some v | None \<Rightarrow> Some (JStr topic)) \<and>
     (\<forall>k. k \<noteq> ''topic'' \<longrightarrow> map_of (withTopic topic data) k = map_of data k)"
  by (simp add: busEmit_eq map_of_withTopic split: option.splits)

theorem bus_publish_witness:
  "''Foo'' \<notin> set objectProtoKeys \<and> distinct (map fst foo_event) \<and>
   busEmit ready_state ''Foo'' foo_event =
     (True, ready_state\<lparr>busLog := busLog ready_state
        @ [(1, foo_event), (3, withTopic ''Foo'' foo_event)]\<rparr>) \<and>
   map_of (withTopic ''Foo'' foo_event) ''topic'' = Some (JStr ''Foo'') \<and>
   map_of (withTopic ''Foo'' foo_event) ''msgId'' = Some (JNum 42) \<and>
   busLog ready_state = [(3, [(''topic'', JStr ''__proto_ready''),
      (''namespaces'', JArr [JStr ''holdem'', JStr ''commonProto''])])]"
  using bus_publish [of "''Foo''" foo_event ready_state] foo_topics foo_event_keys
  by (simp add: ready_handlers ready_fields) (simp add: foo_event_def)

text \<open>
  Where claim C4 fails as it is stated. The frame \<open>foo_envelope\<close> is an envelope of
  \<open>holdem\<close> whose type \<open>Foo\<close> is found in \<open>commonProto\<close>, so its event is published a second
  time under the composite topic \<^verbatim>\<open>commonProto.Foo\<close>: the wildcard handler is then called
  with a copy whose \<open>topic\<close> is still \<open>Foo\<close>, the event's own, since the properties of the
  event are spread over the publish topic. A publish under the topic \<^verbatim>\<open>constructor\<close> raises
  before any handler is called.
\<close>

theorem bus_publish_counterexample:
  "fst (decodeFrame demo_env ready_state foo_envelope demo_url) = Event foo_event \<and>
   busLog (snd (decodeFrame demo_env ready_state foo_envelope demo_url)) =
     busLog ready_state @ [(1, foo_event), (3, withTopic ''Foo'' foo_event),
                   (2, foo_event), (3, withTopic ''commonProto.Foo'' foo_event)] \<and>
   handlers ready_state ''commonProto.Foo'' = Some [2] \<and> handlers ready_state ''*'' = Some [3] \<and>
   map_of (withTopic ''commonProto.Foo'' foo_event) ''topic'' = Some (JStr ''Foo'') \<and>
   map_of (withTopic ''commonProto.Foo'' foo_event) ''topic'' \<noteq> Some (JStr ''commonProto.Foo'') \<and>
   busEmit ready_state ''constructor'' foo_event = (False, ready_state)"
  by (simp add: foo_envelope_event ready_fields subscribed_handlers)
     (simp add: withTopic_def foo_event_def busEmit_def objectProtoKeys_def)

text \<open>
  Claim C5. Each close of the relay connection increments the retry counter; while the
  incremented counter \<open>n\<close> is at most 8 a reconnect is scheduled after
  \<open>min 30000 (1000 * n * n)\<close> milliseconds, and past 8 none is. Nine consecutive closes
  starting from a counter of 0 schedule 1000, 4000, 9000, 16000, 25000, 30000, 30000, 30000
  and then nothing.
\<close>

theorem reconnect_backoff:
  "(retries st = 0 \<longrightarrow>
      closes 9 st = [Some 1000, Some 4000, Some 9000, Some 16000, Some 25000,
                     Some 30000, Some 30000, Some 30000, None]) \<and>
   retries (fst (relayOnClose st)) = retries st + 1 \<and>
   (retries st + 1 \<le> 8 \<longrightarrow>
      snd (relayOnClose st) = Some (min 30000 (1000 * (retries st + 1) * (retries st + 1)))) \<and>
   (retries st + 1 > 8 \<longrightarrow> snd (relayOnClose st) = None)"
proof (intro conjI impI)
  assume z: "retries st = 0"
  have nine: "(9::nat) = Suc (Suc (Suc (Suc (Suc (Suc (Suc (Suc (Suc 0))))))))"
    by simp
  show "closes 9 st = [Some 1000, Some 4000, Some 9000, Some 16000, Some 25000,
                     Some 30000, Some 30000, Some 30000, None]"
    unfolding nine using z
    by (simp add: relayOnClose_def Let_def MAX_RETRIES_def)
qed (simp_all add: relayOnClose_def Let_def MAX_RETRIES_def)

theorem reconnect_backoff_witness:
  "retries init_state = 0 \<and>
   closes 9 init_state = [Some 1000, Some 4000, Some 9000, Some 16000, Some 25000,
                     Some 30000, Some 30000, Some 30000, None] \<and>
   snd (relayOnClose (init_state\<lparr>retries := 5\<rparr>)) = Some 30000 \<and>
   snd (relayOnClose (init_state\<lparr>retries := 8\<rparr>)) = None"
  using reconnect_backoff [of init_state] reconnect_backoff [of "init_state\<lparr>retries := 5\<rparr>"]
    reconnect_backoff [of "init_state\<lparr>retries := 8\<rparr>"]
  by (simp add: init_state_def)

text \<open>
  Claim C6. The offline queue of a reachable state holds at most 500 entries, and
  forwarding never takes it past 500. Forwarding while it holds 500 leaves its contents as
  they are: when the relay is not open the call changes nothing at all, and when the relay
  is open and the send raises only the count of send attempts changes.
\<close>

theorem relay_queue_bounded:
  "(reachable st \<longrightarrow> length (queue st) \<le> 500) \<and>
   (length (queue st) \<le> 500 \<longrightarrow> length (queue (relayEmit e st json)) \<le> 500) \<and>
   (length (queue st) = 500 \<longrightarrow> queue (relayEmit e st json) = queue st) \<and>
   (length (queue st) = 500 \<and> \<not> relayOk st \<longrightarrow> relayEmit e st json = st) \<and>
   (length (queue st) = 500 \<and> relayOk st \<and> relayThrows e (relaySends st) json \<longrightarrow>
      relayEmit e st json = st\<lparr>relaySends := Suc (relaySends st)\<rparr>)"
proof -
  have "reachable st \<longrightarrow> length (queue st) \<le> 500"
    using reachable_tapInv [of st] by (simp add: tapInv_def)
  then show ?thesis
    by (auto simp: relayEmit_def relaySend_def Let_def)
qed

theorem relay_queue_bounded_witness:
  "length (queue full_queue) = 500 \<and> \<not> relayOk full_queue \<and>
   relayEmit quiet_env full_queue [(''n'', JNum 500)] = full_queue \<and>
   queue (relayEmit quiet_env full_queue [(''n'', JNum 500)]) = queue full_queue \<and>
   reachable ready_state \<and> length (queue ready_state) \<le> 500"
  using relay_queue_bounded [of full_queue quiet_env "[(''n'', JNum 500)]"]
    relay_queue_bounded [of ready_state quiet_env "[]"] reachable_ready
  by (simp add: full_queue_def init_state_def)

text \<open>
  Claim C7. The ring of decoded events never holds more than 200 entries and the ring of
  unknown frames never more than 500, in any reachable state. After any run of pushes onto
  a ring within its capacity the ring is within its capacity and holds the most recent
  entries in the order they were pushed; a push onto a ring that is at capacity removes
  the oldest entry, keeps the others in order and puts the new entry last.
\<close>

theorem ring_buffers_bounded:
  "(reachable st \<longrightarrow> length (lastEvents st) \<le> 200 \<and> length (unknownFrames st) \<le> 500) \<and>
   (length (lastEvents st) \<le> 200 \<longrightarrow>
      length (lastEvents (fold (\<lambda>x s. pushRing s x) items st)) \<le> 200 \<and>
      lastEvents (fold (\<lambda>x s. pushRing s x) items st)
        = drop (length (lastEvents st @ items) - 200) (lastEvents st @ items)) \<and>
   (length (unknownFrames st) \<le> 500 \<longrightarrow>
      length (unknownFrames (fold (\<lambda>x s. pushUnknown s x) items st)) \<le> 500 \<and>
      unknownFrames (fold (\<lambda>x s. pushUnknown s x) items st)
        = drop (length (unknownFrames st @ items) - 500) (unknownFrames st @ items)) \<and>
   (length (lastEvents st) = 200 \<longrightarrow> lastEvents (pushRing st x) = tl (lastEvents st) @ [x]) \<and>
   (length (unknownFrames st) = 500 \<longrightarrow>
      unknownFrames (pushUnknown st x) = tl (unknownFrames st) @ [x])"
proof (intro conjI impI)
  assume "reachable st"
  then show "length (lastEvents st) \<le> 200" "length (unknownFrames st) \<le> 500"
    using reachable_tapInv [of st] by (simp_all add: tapInv_def RING_SIZE_def UNKNOWN_RING_def)
next
  assume a: "length (lastEvents st) \<le> 200"
  show "lastEvents (fold (\<lambda>x s. pushRing s x) items st)
        = drop (length (lastEvents st @ items) - 200) (lastEvents st @ items)"
    using a by (simp add: lastEvents_fold RING_SIZE_def fold_ringPush)
  then show "length (lastEvents (fold (\<lambda>x s. pushRing s x) items st)) \<le> 200"
    by simp
next
  assume a: "length (unknownFrames st) \<le> 500"
  show "unknownFrames (fold (\<lambda>x s. pushUnknown s x) items st)
        = drop (length (unknownFrames st @ items) - 500) (unknownFrames st @ items)"
    using a by (simp add: unknownFrames_fold UNKNOWN_RING_def fold_ringPush)
  then show "length (unknownFrames (fold (\<lambda>x s. pushUnknown s x) items st)) \<le> 500"
    by simp
next
  assume "length (lastEvents st) = 200"
  then show "lastEvents (pushRing st x) = tl (lastEvents st) @ [x]"
    by (simp add: pushRing_def RING_SIZE_def ringPush_full)
next
  assume "length (unknownFrames st) = 500"
  then show "unknownFrames (pushUnknown st x) = tl (unknownFrames st) @ [x]"
    by (simp add: pushUnknown_def UNKNOWN_RING_def ringPush_full)
qed

theorem ring_buffers_bounded_witness:
  "length (lastEvents full_rings) = 200 \<and> length (unknownFrames full_rings) = 500 \<and>
   lastEvents (pushRing full_rings [(''n'', JNum 200)])
     = tl (lastEvents full_rings) @ [[(''n'', JNum 200)]] \<and>
   unknownFrames (pushUnknown full_rings [(''n'', JNum 200)])
     = tl (unknownFrames full_rings) @ [[(''n'', JNum 200)]] \<and>
   length (lastEvents (fold (\<lambda>x s. pushRing s x) [[(''a'', JNull)], [(''b'', JNull)]] full_rings))
     \<le> 200 \<and>
   length (unknownFrames (fold (\<lambda>x s. pushUnknown s x) [[(''a'', JNull)], [(''b'', JNull)]] full_rings))
     \<le> 500 \<and>
   reachable ready_state \<and> length (lastEvents ready_state) \<le> 200"
proof -
  have l: "length (lastEvents full_rings) = 200" "length (unknownFrames full_rings) = 500"
    by (simp_all add: full_rings_def init_state_def)
  show ?thesis
    using l ring_buffers_bounded [of full_rings "[[(''a'', JNull)], [(''b'', JNull)]]" "[(''n'', JNum 200)]"]
      ring_buffers_bounded [of ready_state "[]" "[]"] reachable_ready
    by simp
qed

text \<open>
  Claim C8. A frame whose resolved type name is in the skip set, through the reverse id
  map under the length-prefixed scheme or as the last segment of the first accepted
  envelope's topic under the wrapper scheme, makes \<open>decodeFrame\<close> return \<^verbatim>\<open>null\<close> with
  nothing pushed onto either ring, nothing sent to or queued for the relay and no handler
  called: the state differs at most in the cached registry and in the log of envelope
  decodes.
\<close>

theorem skipped_topics_no_effect:
  assumes t: "resolvedTypeName e st bs = Some tn" and s: "tn \<in> set SKIP_TOPICS"
  shows "fst (decodeFrame e st bs wsUrl) = Null \<and>
         (\<exists>calls. snd (decodeFrame e st bs wsUrl)
                    = st\<lparr>pb := resolved e st, wrapperCalls := calls\<rparr>) \<and>
         lastEvents (snd (decodeFrame e st bs wsUrl)) = lastEvents st \<and>
         unknownFrames (snd (decodeFrame e st bs wsUrl)) = unknownFrames st \<and>
         queue (snd (decodeFrame e st bs wsUrl)) = queue st \<and>
         relaySent (snd (decodeFrame e st bs wsUrl)) = relaySent st \<and>
         relaySends (snd (decodeFrame e st bs wsUrl)) = relaySends st \<and>
         busLog (snd (decodeFrame e st bs wsUrl)) = busLog st"
proof -
  from t obtain r where r: "resolved e st = Some r"
    by (cases "resolved e st") (simp_all add: resolvedTypeName_def)
  from t r have l: "\<not> length bs < 6"
    by (simp add: resolvedTypeName_def split: if_splits)
  have "\<exists>calls. decodeFrame e st bs wsUrl = (Null, st\<lparr>pb := Some r, wrapperCalls := calls\<rparr>)"
  proof (cases "isLengthPrefixed bs")
    case True
    with t r l obtain ns where "idToType st (msgIdOf bs) = Some (ns, tn)"
      by (auto simp: resolvedTypeName_def)
    then have "decodeLengthPrefixed e r bs wsUrl (st\<lparr>pb := Some r\<rparr>) = (Null, st\<lparr>pb := Some r\<rparr>)"
      using s by (intro decodeLengthPrefixed_skip [of _ _ ns tn]) simp_all
    with r True have "decodeFrame e st bs wsUrl
        = (Null, st\<lparr>pb := Some r, wrapperCalls := wrapperCalls st\<rparr>)"
      by (simp add: decodeFrame_lp)
    then show ?thesis by blast
  next
    case False
    with t r l obtain ns w where f: "firstEnvelope r bs GAME_NAMESPACES = Some (ns, w)"
        and tn: "tn = lastSegment (w_topic w)"
      by (auto simp: resolvedTypeName_def)
    have d: "decodeFrame e st bs wsUrl
             = decodeWrapper e r bs wsUrl GAME_NAMESPACES (st\<lparr>pb := Some r\<rparr>)"
      using r l False by (simp add: decodeFrame_def resolvePb_eq isLengthPrefixed_def)
    from s tn have sk: "lastSegment (w_topic w) \<in> set SKIP_TOPICS" by simp
    from decodeWrapper_skip [OF f sk, of e wsUrl "st\<lparr>pb := Some r\<rparr>"]
    show ?thesis
      unfolding d by simp
  qed
  then obtain calls where c: "decodeFrame e st bs wsUrl
      = (Null, st\<lparr>pb := Some r, wrapperCalls := calls\<rparr>)"
    by blast
  have "snd (decodeFrame e st bs wsUrl) = st\<lparr>pb := resolved e st, wrapperCalls := calls\<rparr>"
    by (simp add: c r)
  then have "\<exists>calls. snd (decodeFrame e st bs wsUrl)
                    = st\<lparr>pb := resolved e st, wrapperCalls := calls\<rparr>"
    by blast
  then show ?thesis
    by (simp add: c)
qed

theorem skipped_topics_no_effect_witness:
  "resolvedTypeName demo_env ready_state ping_frame = Some ''Ping'' \<and>
   resolvedTypeName demo_env ready_state ping_envelope = Some ''Ping'' \<and>
   ''Ping'' \<in> set SKIP_TOPICS \<and>
   fst (decodeFrame demo_env ready_state ping_frame demo_url) = Null \<and>
   lastEvents (snd (decodeFrame demo_env ready_state ping_frame demo_url)) = [] \<and>
   unknownFrames (snd (decodeFrame demo_env ready_state ping_frame demo_url)) = [] \<and>
   queue (snd (decodeFrame demo_env ready_state ping_frame demo_url)) = [] \<and>
   relaySent (snd (decodeFrame demo_env ready_state ping_frame demo_url)) = [] \<and>
   fst (decodeFrame demo_env ready_state ping_envelope demo_url) = Null \<and>
   lastEvents (snd (decodeFrame demo_env ready_state ping_envelope demo_url)) = [] \<and>
   unknownFrames (snd (decodeFrame demo_env ready_state ping_envelope demo_url)) = [] \<and>
   queue (snd (decodeFrame demo_env ready_state ping_envelope demo_url)) = [] \<and>
   relaySent (snd (decodeFrame demo_env ready_state ping_envelope demo_url)) = []"
  using skipped_topics_no_effect [OF ping_resolved(1) ping_resolved(3), of demo_url]
    skipped_topics_no_effect [OF ping_resolved(2) ping_resolved(3), of demo_url]
    ping_resolved
  by (simp add: ready_fields)




text \<open>
  Claim C10, as amended. \<open>buildReverseIdMap\<close> leaves the entry for id 0 as it was, so the
  reverse id map of a reachable state has no entry for 0, whatever the enumerations of the
  registry assign to 0. In a state without an entry for 0, a frame of at least 6 and fewer
  than \<open>2^31\<close> bytes whose first four bytes, read as a big-endian unsigned 32-bit integer,
  equal its length and whose message id is 0 never yields an event: when the registry is
  resolved it is captured as an unknown frame, and when the registry is not resolved it is
  dropped and nothing is recorded.
\<close>

theorem reverse_map_skips_zero:
  "idToType (buildReverseIdMap r st) 0 = idToType st 0 \<and>
   (reachable st \<longrightarrow> idToType st 0 = None) \<and>
   (idToType st 0 = None \<and> declaredLength bs = length bs \<and> 6 \<le> length bs
      \<and> length bs < 2147483648 \<and> msgIdOf bs = 0 \<longrightarrow>
      fst (decodeFrame e st bs wsUrl) = Null \<and>
      lastEvents (snd (decodeFrame e st bs wsUrl)) = lastEvents st \<and>
      busLog (snd (decodeFrame e st bs wsUrl)) = busLog st \<and>
      (resolved e st = Some r' \<longrightarrow>
         decodeFrame e st bs wsUrl =
           (Null, relayEmit e (pushUnknown (st\<lparr>pb := Some r'\<rparr>) (unknownEntry e bs wsUrl))
                    (unknownEntry e bs wsUrl)) \<and>
         unknownFrames (snd (decodeFrame e st bs wsUrl))
           = ringPush UNKNOWN_RING (unknownFrames st) (unknownEntry e bs wsUrl)) \<and>
      (resolved e st = None \<longrightarrow> decodeFrame e st bs wsUrl = (Null, st)))"
proof (intro conjI impI)
  show "idToType (buildReverseIdMap r st) 0 = idToType st 0"
    by (simp add: buildReverseIdMap_def reverseLoop_zero)
next
  assume "reachable st"
  then show "idToType st 0 = None"
    using reachable_tapInv [of st] by (simp add: tapInv_def)
next
  assume a: "idToType st 0 = None \<and> declaredLength bs = length bs \<and> 6 \<le> length bs
      \<and> length bs < 2147483648 \<and> msgIdOf bs = 0"
  then have lp: "isLengthPrefixed bs"
    by (simp add: isLengthPrefixed_iff)
  have d: "decodeFrame e st bs wsUrl =
      (case resolved e st of
         None \<Rightarrow> (Null, st)
       | Some r \<Rightarrow> (Null, relayEmit e (pushUnknown (st\<lparr>pb := Some r\<rparr>) (unknownEntry e bs wsUrl))
                    (unknownEntry e bs wsUrl)))"
    using a lp
    by (simp add: decodeFrame_lp decodeFrame_not_ready decodeLengthPrefixed_unknown
        unknownEntry_def frameLen_lp split: option.split)
  show "fst (decodeFrame e st bs wsUrl) = Null"
    "lastEvents (snd (decodeFrame e st bs wsUrl)) = lastEvents st"
    "busLog (snd (decodeFrame e st bs wsUrl)) = busLog st"
    by (simp_all add: d split: option.split)
  {
    assume "resolved e st = Some r'"
    then show "decodeFrame e st bs wsUrl =
           (Null, relayEmit e (pushUnknown (st\<lparr>pb := Some r'\<rparr>) (unknownEntry e bs wsUrl))
                    (unknownEntry e bs wsUrl))"
      "unknownFrames (snd (decodeFrame e st bs wsUrl))
           = ringPush UNKNOWN_RING (unknownFrames st) (unknownEntry e bs wsUrl)"
      by (simp_all add: d)
  }
  {
    assume "resolved e st = None"
    then show "decodeFrame e st bs wsUrl = (Null, st)"
      by (simp add: d)
  }
qed

theorem reverse_map_skips_zero_witness:
  "map_of [(''Idle'', 0), (''ActionReq'', 5 :: int)] ''Idle'' = Some 0 \<and>
   reachable ready_state \<and> idToType ready_state 0 = None \<and>
   declaredLength zero_frame = length zero_frame \<and> 6 \<le> length zero_frame \<and>
   length zero_frame < 2147483648 \<and> msgIdOf zero_frame = 0 \<and>
   resolved demo_env ready_state = Some demo_reg \<and>
   fst (decodeFrame demo_env ready_state zero_frame demo_url) = Null \<and>
   lastEvents (snd (decodeFrame demo_env ready_state zero_frame demo_url)) = [] \<and>
   unknownFrames (snd (decodeFrame demo_env ready_state zero_frame demo_url))
     = [unknownEntry demo_env zero_frame demo_url] \<and>
   idToType init_state 0 = None \<and> resolved quiet_env init_state = None \<and>
   decodeFrame quiet_env init_state zero_frame demo_url = (Null, init_state)"
proof -
  note a = reverse_map_skips_zero [of demo_reg ready_state zero_frame demo_env demo_url demo_reg]
  note b = reverse_map_skips_zero [of demo_reg init_state zero_frame quiet_env demo_url demo_reg]
  have z: "idToType ready_state 0 = None"
    using a reachable_ready by blast
  have i: "idToType init_state 0 = None"
    by (simp add: init_state_def)
  have q: "decodeFrame quiet_env init_state zero_frame demo_url = (Null, init_state)"
    using b i by (simp add: frame_facts resolved_facts)
  show ?thesis
    using a reachable_ready z i q
    by (simp add: frame_facts resolved_facts ready_fields ringPush_def UNKNOWN_RING_def)
qed

text \<open>
  Where claim C10 fails as it is stated. The frame \<open>huge_frame\<close> of \<open>2^31\<close> bytes has a
  header that, read as an unsigned integer, gives its length, and the message id 0; in
  the reachable state \<open>ready_state\<close>, whose reverse id map has no entry for 0, it is not
  treated as an unknown frame: it fails the signed length test, goes to the envelope
  decoder and yields an event. And before the registry is available the frame \<open>zero_frame\<close>
  is not captured as an unknown frame either: it is dropped.
\<close>

theorem reverse_map_skips_zero_counterexample:
  "declaredLength huge_frame = length huge_frame \<and> 6 \<le> length huge_frame \<and>
   msgIdOf huge_frame = 0 \<and>
   reachable ready_state \<and> idToType ready_state 0 = None \<and>
   fst (decodeFrame demo_env ready_state huge_frame demo_url) = Event foo_event \<and>
   unknownFrames (snd (decodeFrame demo_env ready_state huge_frame demo_url)) = [] \<and>
   declaredLength zero_frame = length zero_frame \<and> 6 \<le> length zero_frame \<and>
   msgIdOf zero_frame = 0 \<and>
   decodeFrame quiet_env init_state zero_frame demo_url = (Null, init_state) \<and>
   unknownFrames init_state = []"
proof -
  have q: "decodeFrame quiet_env init_state zero_frame demo_url = (Null, init_state)"
    by (simp add: decodeFrame_not_ready resolved_facts)
  have u: "unknownFrames init_state = []"
    by (simp add: init_state_def)
  show ?thesis
    by (simp add: frame_facts huge_id reachable_ready ready_fields demo_ids huge_frame_event q u)
qed

end
